theory Spec2Isabelle
  imports Main
begin

section \<open>The Zajal interpreter: data model\<close>

text \<open>
  This theory embeds \<^verbatim>\<open>src/ZajalInterpreter.cc\<close>: the lifecycle state machine of the
  interpreter (setup, update, draw, exit and the input handlers), the watch poll and the
  script loader. The C++ object is a record; the embedded Ruby engine, the file system and
  the constants of \<^verbatim>\<open>config.h\<close> and \<^verbatim>\<open>ZajalInterpreter.h\<close> are parameters.
  Calls into the graphics backend (\<^verbatim>\<open>ofRect\<close>, \<^verbatim>\<open>ofSetColor\<close>,
  \<^verbatim>\<open>grabScreen\<close>, ...) touch none of the fields modelled here and are left out.
\<close>

subsection \<open>Ruby values and the interpreter state\<close>

text \<open>
  A \<^verbatim>\<open>VALUE\<close> is an opaque handle for the C++ code. The model keeps the kinds of
  value the interpreter builds or tests: \<^verbatim>\<open>Qnil\<close>, the booleans, fixnums
  (\<^verbatim>\<open>INT2FIX\<close>), symbols (\<^verbatim>\<open>SYM\<close>), strings (\<^verbatim>\<open>rb_str_new2\<close>),
  classes and callables.
\<close>

datatype VALUE =
    Qnil
  | Qtrue
  | Qfalse
  | Fixnum int
  | Sym string
  | Str string
  | Class string
  | Proc nat

definition RTEST :: "VALUE \<Rightarrow> bool" where
  "RTEST v = (v \<noteq> Qnil \<and> v \<noteq> Qfalse)"

definition rb_cObject :: VALUE where
  "rb_cObject = Class ''Object''"

datatype InterpreterState =
    INTERPRETER_NO_SKETCH
  | INTERPRETER_RUNNING
  | INTERPRETER_ERROR

text \<open>
  The ways the process ends instead of returning: \<^verbatim>\<open>::exit(code)\<close> after a
  diagnostic on stderr, \<^verbatim>\<open>rb_bug\<close> (which aborts), a Ruby exception raised outside
  \<^verbatim>\<open>rb_protect\<close>, and undefined behaviour of the C++ code (a null \<^verbatim>\<open>FILE*\<close>,
  signed overflow).
\<close>

datatype diagnostic =
    CouldNotAccess string
  | NoLoadPathSet

datatype fatal =
    Exit int diagnostic
  | RbBug int
  | UncaughtException
  | UndefinedBehaviour

subsection \<open>The engine's named slots\<close>

datatype event_slot =
    setup_proc | defaults_proc | update_proc | draw_proc | exit_proc
  | key_pressed_proc | key_down_proc | key_up_proc
  | mouse_moved_proc | mouse_dragged_proc | mouse_pressed_proc
  | mouse_down_proc | mouse_up_proc | window_resized_proc

datatype hook_slot =
    update_prehooks | update_posthooks
  | draw_prehooks | draw_posthooks
  | exit_prehooks | exit_posthooks

text \<open>
  What \<^verbatim>\<open>logConsoleText\<close> writes: one constructor per format string of the source,
  with the format's arguments.
\<close>

datatype log_message =
    LogReading "string option" int
  | LogUpdatingInPlace string
  | LogZajalPathOpen
  | LogZajalPathEntry VALUE
  | LogZajalPathClose
  | LogErrorClass string
  | LogErrorMessage string
  | LogBacktraceHeader
  | LogBacktraceFrom string

text \<open>
  The state on the Ruby side that the interpreter reads and writes by name
  (\<^verbatim>\<open>INTERNAL_GET\<close>, \<^verbatim>\<open>INTERNAL_SET\<close>, \<^verbatim>\<open>rb_gv_get("$:")\<close>): the entry
  points and hook lists of \<^verbatim>\<open>zj_mEvents\<close>, the watch list of \<^verbatim>\<open>zj_mZajal\<close>, the
  slots of \<^verbatim>\<open>zj_mApp\<close>, the load path and the console buffers. Everything else the
  script defines is the field \<open>user\<close>.
\<close>

record 'g world =
  procs :: "event_slot \<Rightarrow> VALUE"
  hooks :: "hook_slot \<Rightarrow> VALUE list"
  current_event :: VALUE
  watched_files :: "VALUE list"
  load_path :: "VALUE list"
  data_path :: VALUE
  current_code :: VALUE
  verbose :: VALUE
  console :: "(string \<times> log_message) list"
  user :: 'g

text \<open>
  The calls into script code that the interpreter makes, in the order it makes them.
  \<open>WatchPoll\<close> marks an entry into \<^verbatim>\<open>updateCurrentScript\<close>.
\<close>

datatype event =
    ProcCall VALUE "VALUE list"
  | Funcall VALUE string "VALUE list"
  | KernelLoad string
  | WatchPoll

text \<open>
  The fields of the C++ object, the global flag \<^verbatim>\<open>ruby_error\<close>, the Ruby side and
  the log of calls.
\<close>

record 'g machine =
  state :: InterpreterState
  keyIsPressed :: bool
  mouseIsPressed :: bool
  scriptModifiedTime :: int
  scriptName :: "string option"
  nextUpdate :: int
  initialWidth :: int
  initialHeight :: int
  lastMouseX :: VALUE
  lastMouseY :: VALUE
  lastMouseButton :: VALUE
  ruby_error :: bool
  script :: "'g world"
  trace :: "event list"

subsection \<open>Parameters: the engine, the operating system, the configuration\<close>

text \<open>
  Modelled from the spec: \<^verbatim>\<open>zj_safe_proc_call\<close>, \<^verbatim>\<open>zj_safe_funcall\<close> and the flag
  \<^verbatim>\<open>ruby_error\<close> are declared outside \<^verbatim>\<open>src/\<close>. The spec gives the engine the
  operation \<^verbatim>\<open>invoke(callableHandle, args...) -> (result, failed, errorInfo)\<close>:
  a protected call runs script code, which may change the Ruby side, and reports whether it
  failed. \<open>proc_call\<close> and \<open>funcall\<close> are that operation; what a given callable does
  is a parameter. The unprotected calls (\<^verbatim>\<open>rb_funcall(rb_mKernel, "load")\<close>,
  \<^verbatim>\<open>rb_require\<close>, \<^verbatim>\<open>rb_const_get\<close>) return \<open>None\<close> when they raise.
\<close>

record 'g engine =
  proc_call :: "VALUE \<Rightarrow> VALUE list \<Rightarrow> 'g world \<Rightarrow> bool \<times> 'g world"
  funcall :: "VALUE \<Rightarrow> string \<Rightarrow> VALUE list \<Rightarrow> 'g world \<Rightarrow> (bool \<times> VALUE) \<times> 'g world"
  kernel_load :: "string \<Rightarrow> 'g world \<Rightarrow> 'g world option"
  rb_require :: "string \<Rightarrow> 'g world \<Rightarrow> 'g world option"
  rb_const_get :: "'g world \<Rightarrow> string \<Rightarrow> VALUE option"
  rb_enc_find :: "string \<Rightarrow> 'g world \<Rightarrow> 'g world"
  include_Math :: "'g world \<Rightarrow> 'g world"
  zj_graphics_reset_frame :: "'g world \<Rightarrow> 'g world"
  zj_to_data_path :: "'g world \<Rightarrow> string \<Rightarrow> string"
  error_class :: "'g world \<Rightarrow> string"
  error_message :: "'g world \<Rightarrow> string"
  error_backtrace :: "'g world \<Rightarrow> string list"

text \<open>
  The file system as one entry point of the interpreter sees it: \<open>stat_mtime\<close> is
  \<^verbatim>\<open>st_mtimespec.tv_sec\<close> of a successful \<^verbatim>\<open>stat\<close>, \<open>file_content\<close> the bytes
  that \<^verbatim>\<open>fopen\<close> and \<^verbatim>\<open>fread\<close> deliver.
\<close>

record os =
  stat_mtime :: "string \<Rightarrow> int option"
  file_content :: "string \<Rightarrow> string option"
  realpath :: "string \<Rightarrow> string option"
  dirname :: "string \<Rightarrow> string"

record config =
  SCRIPT_UPDATE_FREQUENCY :: int
  DEFAULT_INITIAL_WIDTH :: int
  DEFAULT_INITIAL_HEIGHT :: int
  EMPTY_LOADPATH :: bool
  ZAJAL_LIBRARY_PATH :: string
  ZAJAL_RUBY_STDLIB_PATH :: string

section \<open>The functions of ZajalInterpreter.cc\<close>

subsection \<open>Pointer buttons\<close>

definition zj_button_to_symbol :: "int \<Rightarrow> fatal + VALUE" where
  "zj_button_to_symbol button =
     (if button = 0 then Inr (Sym ''left'')
      else if button = 1 then Inr (Sym ''middle'')
      else if button = 2 then Inr (Sym ''right'')
      else Inl (RbBug button))"

subsection \<open>Protected calls, the console, hook loops\<close>

text \<open>
  Modelled from the spec: \<^verbatim>\<open>zj_safe_proc_call\<close> and \<^verbatim>\<open>zj_safe_funcall\<close> are
  defined outside \<^verbatim>\<open>src/\<close>. Following the engine operation
  \<^verbatim>\<open>invoke(callableHandle, args...) -> (result, failed, errorInfo)\<close> of the spec, a
  protected call hands the callable and its arguments to the engine, takes the Ruby side
  the engine leaves, and stores in \<^verbatim>\<open>ruby_error\<close> whether this call failed. The
  model also appends the call to the log.
\<close>

definition zj_safe_proc_call ::
  "'g engine \<Rightarrow> VALUE \<Rightarrow> VALUE list \<Rightarrow> 'g machine \<Rightarrow> 'g machine" where
  "zj_safe_proc_call E p args m =
     (case proc_call E p args (script m) of
        (failed, w) \<Rightarrow>
          m\<lparr>ruby_error := failed, script := w, trace := trace m @ [ProcCall p args]\<rparr>)"

definition zj_safe_funcall ::
  "'g engine \<Rightarrow> VALUE \<Rightarrow> string \<Rightarrow> VALUE list \<Rightarrow> 'g machine \<Rightarrow> VALUE \<times> 'g machine" where
  "zj_safe_funcall E recv mid args m =
     (case funcall E recv mid args (script m) of
        ((failed, result), w) \<Rightarrow>
          (result,
           m\<lparr>ruby_error := failed, script := w, trace := trace m @ [Funcall recv mid args]\<rparr>))"

text \<open>
  A C string ends at its first NUL byte; \<^verbatim>\<open>rb_str_new2\<close> copies a C string.
\<close>

definition c_str :: "string \<Rightarrow> string" where
  "c_str s = takeWhile (\<lambda>c. c \<noteq> CHR 0x00) s"

definition rb_str_new2 :: "string \<Rightarrow> VALUE" where
  "rb_str_new2 s = Str (c_str s)"

text \<open>
  \<^verbatim>\<open>rb_funcall(rb_mKernel, rb_intern("load"), 1, rb_str_new2(path))\<close>: not protected.
  The file name that reaches the engine is the C string.
\<close>

definition rb_load :: "'g engine \<Rightarrow> string \<Rightarrow> 'g machine \<Rightarrow> fatal + 'g machine" where
  "rb_load E path m =
     (case kernel_load E (c_str path) (script m) of
        None \<Rightarrow> Inl UncaughtException
      | Some w \<Rightarrow> Inr (m\<lparr>script := w, trace := trace m @ [KernelLoad (c_str path)]\<rparr>))"

definition logConsoleText :: "string \<Rightarrow> log_message \<Rightarrow> 'g machine \<Rightarrow> 'g machine" where
  "logConsoleText consoleName msg m =
     (if verbose (script m) = Qfalse then m
      else m\<lparr>script := (script m)\<lparr>console := console (script m) @ [(consoleName, msg)]\<rparr>\<rparr>)"

text \<open>\<^verbatim>\<open>INTERNAL_SET(zj_mEvents, current_event, SYM(name))\<close>.\<close>

definition set_current_event :: "string \<Rightarrow> 'g machine \<Rightarrow> 'g machine" where
  "set_current_event name m = m\<lparr>script := (script m)\<lparr>current_event := Sym name\<rparr>\<rparr>"

text \<open>\<^verbatim>\<open>if(ruby_error) state = INTERPRETER_ERROR;\<close>\<close>

definition flag_error :: "'g machine \<Rightarrow> 'g machine" where
  "flag_error m = (if ruby_error m then m\<lparr>state := INTERPRETER_ERROR\<rparr> else m)"

text \<open>
  The hook loops read \<^verbatim>\<open>RARRAY_PTR\<close> and \<^verbatim>\<open>RARRAY_LEN\<close> once, before the first
  call, and then call the elements in index order: the model runs over the list as it is at
  that moment. \<open>run_hooks\<close> is the loop without a test of \<^verbatim>\<open>ruby_error\<close> (update and
  exit hooks, draw prehooks), \<open>run_hooks_checked\<close> the loop of the draw posthooks.
\<close>

fun run_hooks :: "'g engine \<Rightarrow> VALUE list \<Rightarrow> 'g machine \<Rightarrow> 'g machine" where
  "run_hooks E [] m = m"
| "run_hooks E (h # hs) m = run_hooks E hs (zj_safe_proc_call E h [] m)"

fun run_hooks_checked :: "'g engine \<Rightarrow> VALUE list \<Rightarrow> 'g machine \<Rightarrow> 'g machine" where
  "run_hooks_checked E [] m = m"
| "run_hooks_checked E (h # hs) m =
     run_hooks_checked E hs (flag_error (zj_safe_proc_call E h [] m))"

subsection \<open>Construction\<close>

text \<open>
  The constructor, on the Ruby side \<open>w\<close> that \<^verbatim>\<open>ruby_init\<close> and \<^verbatim>\<open>zajal_init\<close>
  leave. It does not initialise the three pointer fields: \<open>junk\<close> stands for what they
  hold.
\<close>

definition ZajalInterpreter :: "config \<Rightarrow> VALUE \<Rightarrow> 'g world \<Rightarrow> 'g machine" where
  "ZajalInterpreter C junk w =
     \<lparr>state = INTERPRETER_NO_SKETCH,
      keyIsPressed = False,
      mouseIsPressed = False,
      scriptModifiedTime = 0,
      scriptName = None,
      nextUpdate = SCRIPT_UPDATE_FREQUENCY C,
      initialWidth = DEFAULT_INITIAL_WIDTH C,
      initialHeight = DEFAULT_INITIAL_HEIGHT C,
      lastMouseX = junk,
      lastMouseY = junk,
      lastMouseButton = junk,
      ruby_error = False,
      script = w\<lparr>current_code := rb_str_new2 [], verbose := Qfalse\<rparr>,
      trace = []\<rparr>"

definition getState :: "'g machine \<Rightarrow> InterpreterState" where
  "getState m = state m"

subsection \<open>The phases\<close>

definition setup_phase :: "'g engine \<Rightarrow> 'g machine \<Rightarrow> 'g machine" where
  "setup_phase E m =
     (if state m = INTERPRETER_RUNNING then
        (let m1 = set_current_event ''setup'' m
         in flag_error (zj_safe_proc_call E (procs (script m1) setup_proc) [] m1))
      else m)"

definition update :: "'g engine \<Rightarrow> 'g machine \<Rightarrow> 'g machine" where
  "update E m =
     (if state m = INTERPRETER_RUNNING then
        (let m1 = set_current_event ''update'' m;
             m2 = zj_safe_proc_call E (procs (script m1) defaults_proc) [] m1;
             m3 = run_hooks E (hooks (script m2) update_prehooks) m2;
             m4 = zj_safe_proc_call E (procs (script m3) update_proc) [] m3
         in if ruby_error m4 then m4\<lparr>state := INTERPRETER_ERROR\<rparr>
            else run_hooks E (hooks (script m4) update_posthooks) m4)
      else m)"

text \<open>
  The two branches of the switch in \<^verbatim>\<open>draw\<close>. In the error branch the message of
  \<^verbatim>\<open>process_error\<close> only goes to the screen; with the verbose flag set, the class,
  message and backtrace of \<^verbatim>\<open>$!\<close> go to the console.
\<close>

definition draw_error :: "'g engine \<Rightarrow> 'g machine \<Rightarrow> 'g machine" where
  "draw_error E m =
     (let m1 = set_current_event ''draw'' m;
          m2 = snd (zj_safe_funcall E rb_cObject ''process_error'' [] m1);
          m3 = (if RTEST (verbose (script m2)) then
                  fold (\<lambda>frame. logConsoleText ''$stderr'' (LogBacktraceFrom frame))
                    (error_backtrace E (script m2))
                    (logConsoleText ''$stderr'' LogBacktraceHeader
                      (logConsoleText ''$stderr'' (LogErrorMessage (error_message E (script m2)))
                        (logConsoleText ''$stderr'' (LogErrorClass (error_class E (script m2)))
                           m2)))
                else m2)
      in zj_safe_proc_call E (procs (script m3) defaults_proc) [] m3)"

definition draw_running :: "'g engine \<Rightarrow> 'g machine \<Rightarrow> 'g machine" where
  "draw_running E m =
     (let m1 = set_current_event ''draw'' m;
          m2 = run_hooks E (hooks (script m1) draw_prehooks) m1;
          m3 = m2\<lparr>script := zj_graphics_reset_frame E (script m2)\<rparr>;
          m4 = flag_error (zj_safe_proc_call E (procs (script m3) draw_proc) [] m3);
          m5 = run_hooks_checked E (hooks (script m4) draw_posthooks) m4;
          m6 = (if mouseIsPressed m5 then
                  zj_safe_proc_call E (procs (script m5) mouse_pressed_proc)
                    [lastMouseX m5, lastMouseY m5, lastMouseButton m5] m5
                else m5)
      in flag_error m6)"

definition draw_switch :: "'g engine \<Rightarrow> 'g machine \<Rightarrow> 'g machine" where
  "draw_switch E m =
     (case state m of
        INTERPRETER_ERROR \<Rightarrow> draw_error E m
      | INTERPRETER_RUNNING \<Rightarrow> draw_running E m
      | INTERPRETER_NO_SKETCH \<Rightarrow> m)"

subsection \<open>Reloading and the watch poll\<close>

text \<open>
  \<^verbatim>\<open>reloadScript(forced, filename)\<close>. \<open>None\<close> for the file name is the null pointer;
  \<^verbatim>\<open>fopen\<close> of a null name, or \<^verbatim>\<open>fseek\<close> on the null stream of a file that cannot
  be opened, is undefined behaviour.
\<close>

definition reloadScript ::
  "'g engine \<Rightarrow> os \<Rightarrow> bool \<Rightarrow> string option \<Rightarrow> 'g machine \<Rightarrow> fatal + 'g machine" where
  "reloadScript E F forced filename m =
     (case (case filename of None \<Rightarrow> scriptName m | Some f \<Rightarrow> Some f) of
        None \<Rightarrow> Inl UndefinedBehaviour
      | Some f \<Rightarrow>
          (case file_content F f of
             None \<Rightarrow> Inl UndefinedBehaviour
           | Some scriptFileContent \<Rightarrow>
               (let forced' = (forced \<or> state m = INTERPRETER_ERROR);
                    m1 = logConsoleText ''$stdout''
                           (LogReading (scriptName m) (int (length scriptFileContent))) m;
                    m2 = (if forced' then
                            snd (zj_safe_funcall E rb_cObject ''live_load''
                                   [rb_str_new2 [], Qtrue] m1)
                          else m1);
                    m3 = snd (zj_safe_funcall E rb_cObject ''live_load''
                                [rb_str_new2 scriptFileContent,
                                 if forced' then Qtrue else Qfalse] m2)
                in Inr (m3\<lparr>state := (if ruby_error m3 then INTERPRETER_ERROR
                                        else INTERPRETER_RUNNING)\<rparr>))))"

text \<open>
  The body of the loop of \<^verbatim>\<open>updateCurrentScript\<close> for the entry at index \<open>i\<close>.
  \<^verbatim>\<open>StringValuePtr\<close> raises for an entry that is not a string; for a string it
  gives a \<^verbatim>\<open>char*\<close>, so \<^verbatim>\<open>stat\<close>, the log and \<^verbatim>\<open>load\<close> see the
  entry up to its first NUL byte. The call
  \<^verbatim>\<open>reloadScript()\<close> takes the default arguments of the declaration in
  \<^verbatim>\<open>ZajalInterpreter.h\<close>: the null file name, and for \<open>forced\<close> the parameter
  \<open>forced_default\<close>.
\<close>

definition watch_file ::
  "bool \<Rightarrow> 'g engine \<Rightarrow> os \<Rightarrow> nat \<Rightarrow> VALUE \<Rightarrow> 'g machine \<Rightarrow> fatal + 'g machine" where
  "watch_file forced_default E F i v m =
     (case v of
        Str s \<Rightarrow>
          (let filePath = c_str s
           in case stat_mtime F filePath of
                None \<Rightarrow> Inl (Exit 1 (CouldNotAccess filePath))
              | Some mtime \<Rightarrow>
                  if mtime > scriptModifiedTime m then
                    (let m1 = logConsoleText ''$stdout'' (LogUpdatingInPlace filePath) m;
                         m2 = m1\<lparr>scriptModifiedTime := mtime\<rparr>
                     in case (if i > 0 then rb_load E filePath m2 else Inr m2) of
                          Inl e \<Rightarrow> Inl e
                        | Inr m3 \<Rightarrow> reloadScript E F forced_default None m3)
                  else Inr m)
      | _ \<Rightarrow> Inl UncaughtException)"

fun watch_files_loop ::
  "bool \<Rightarrow> 'g engine \<Rightarrow> os \<Rightarrow> nat \<Rightarrow> VALUE list \<Rightarrow> 'g machine \<Rightarrow> fatal + 'g machine" where
  "watch_files_loop fd E F i [] m = Inr m"
| "watch_files_loop fd E F i (v # vs) m =
     (case watch_file fd E F i v m of
        Inl e \<Rightarrow> Inl e
      | Inr m' \<Rightarrow> watch_files_loop fd E F (Suc i) vs m')"

definition updateCurrentScript ::
  "config \<Rightarrow> bool \<Rightarrow> 'g engine \<Rightarrow> os \<Rightarrow> 'g machine \<Rightarrow> fatal + 'g machine" where
  "updateCurrentScript C fd E F m =
     (case watch_files_loop fd E F 0 (watched_files (script m))
             (m\<lparr>trace := trace m @ [WatchPoll]\<rparr>) of
        Inl e \<Rightarrow> Inl e
      | Inr m' \<Rightarrow> Inr (m'\<lparr>nextUpdate := SCRIPT_UPDATE_FREQUENCY C\<rparr>))"

text \<open>
  \<^verbatim>\<open>draw\<close>: the switch, then \<^verbatim>\<open>if(nextUpdate-- == 0) updateCurrentScript();\<close>.
  The counter is taken to be a C \<^verbatim>\<open>int\<close> of 32 bits (it is declared in
  \<^verbatim>\<open>ZajalInterpreter.h\<close>): decrementing the least one is undefined.
\<close>

definition draw ::
  "config \<Rightarrow> bool \<Rightarrow> 'g engine \<Rightarrow> os \<Rightarrow> 'g machine \<Rightarrow> fatal + 'g machine" where
  "draw C fd E F m =
     (let m1 = draw_switch E m
      in if nextUpdate m1 = - (2 ^ 31) then Inl UndefinedBehaviour
         else
           (let m2 = m1\<lparr>nextUpdate := nextUpdate m1 - 1\<rparr>
            in if nextUpdate m1 = 0 then updateCurrentScript C fd E F m2 else Inr m2))"

definition getCurrentScriptPath :: "'g machine \<Rightarrow> string option" where
  "getCurrentScriptPath m = scriptName m"

definition exit_phase :: "'g engine \<Rightarrow> 'g machine \<Rightarrow> 'g machine" where
  "exit_phase E m =
     (let m1 = (if state m = INTERPRETER_RUNNING then
                  (let m' = run_hooks E (hooks (script m) exit_prehooks) m
                   in flag_error (zj_safe_proc_call E (procs (script m') exit_proc) [] m'))
                else m)
      in run_hooks E (hooks (script m1) exit_posthooks) m1)"

subsection \<open>Input handlers\<close>

text \<open>
  \<^verbatim>\<open>INT2FIX\<close> of a coordinate or key code is the fixnum of that number. The handlers
  return a sum because \<^verbatim>\<open>zj_button_to_symbol\<close> may abort and \<^verbatim>\<open>rb_const_get\<close>
  may raise.
\<close>

definition keyPressed :: "'g engine \<Rightarrow> int \<Rightarrow> 'g machine \<Rightarrow> fatal + 'g machine" where
  "keyPressed E key m =
     (if state m = INTERPRETER_RUNNING then
        (case rb_const_get E (script m) ''KeyEvent'' of
           None \<Rightarrow> Inl UncaughtException
         | Some zj_cKeyEvent \<Rightarrow>
             (case zj_safe_funcall E zj_cKeyEvent ''new'' [Fixnum key] m of
                (keyEvent, m1) \<Rightarrow>
                  (let m2 = flag_error m1;
                       m3 = (if keyIsPressed m2 then
                               zj_safe_proc_call E (procs (script m2) key_pressed_proc)
                                 [keyEvent] m2
                             else
                               (zj_safe_proc_call E (procs (script m2) key_down_proc)
                                  [keyEvent] m2)\<lparr>keyIsPressed := True\<rparr>)
                   in Inr (flag_error m3))))
      else Inr m)"

definition keyReleased :: "'g engine \<Rightarrow> int \<Rightarrow> 'g machine \<Rightarrow> fatal + 'g machine" where
  "keyReleased E key m =
     (if state m = INTERPRETER_RUNNING then
        (case rb_const_get E (script m) ''KeyEvent'' of
           None \<Rightarrow> Inl UncaughtException
         | Some zj_cKeyEvent \<Rightarrow>
             (case zj_safe_funcall E zj_cKeyEvent ''new'' [Fixnum key] m of
                (keyEvent, m1) \<Rightarrow>
                  (let m2 = flag_error m1;
                       m3 = flag_error
                              (zj_safe_proc_call E (procs (script m2) key_up_proc)
                                 [keyEvent] m2)
                   in Inr (m3\<lparr>keyIsPressed := False\<rparr>))))
      else Inr m)"

definition mouseMoved :: "'g engine \<Rightarrow> int \<Rightarrow> int \<Rightarrow> 'g machine \<Rightarrow> 'g machine" where
  "mouseMoved E x y m =
     (if state m = INTERPRETER_RUNNING then
        flag_error
          (zj_safe_proc_call E (procs (script m) mouse_moved_proc) [Fixnum x, Fixnum y] m)
      else m)"

definition mouseDragged ::
  "'g engine \<Rightarrow> int \<Rightarrow> int \<Rightarrow> int \<Rightarrow> 'g machine \<Rightarrow> fatal + 'g machine" where
  "mouseDragged E x y button m =
     (if state m = INTERPRETER_RUNNING then
        (case zj_button_to_symbol button of
           Inl e \<Rightarrow> Inl e
         | Inr button_sym \<Rightarrow>
             (let m1 = m\<lparr>lastMouseX := Fixnum x, lastMouseY := Fixnum y,
                         lastMouseButton := button_sym\<rparr>
              in Inr (flag_error
                        (zj_safe_proc_call E (procs (script m1) mouse_dragged_proc)
                           [lastMouseX m1, lastMouseY m1, lastMouseButton m1] m1))))
      else Inr m)"

definition mousePressed ::
  "'g engine \<Rightarrow> int \<Rightarrow> int \<Rightarrow> int \<Rightarrow> 'g machine \<Rightarrow> fatal + 'g machine" where
  "mousePressed E x y button m =
     (if state m = INTERPRETER_RUNNING then
        (case zj_button_to_symbol button of
           Inl e \<Rightarrow> Inl e
         | Inr button_sym \<Rightarrow>
             (let m1 = m\<lparr>lastMouseX := Fixnum x, lastMouseY := Fixnum y,
                         lastMouseButton := button_sym\<rparr>;
                  m2 = (zj_safe_proc_call E (procs (script m1) mouse_down_proc)
                          [lastMouseX m1, lastMouseY m1, lastMouseButton m1] m1)
                         \<lparr>mouseIsPressed := True\<rparr>
              in Inr (flag_error m2)))
      else Inr m)"

definition mouseReleased ::
  "'g engine \<Rightarrow> int \<Rightarrow> int \<Rightarrow> int \<Rightarrow> 'g machine \<Rightarrow> fatal + 'g machine" where
  "mouseReleased E x y button m =
     (if state m = INTERPRETER_RUNNING then
        (case zj_button_to_symbol button of
           Inl e \<Rightarrow> Inl e
         | Inr button_sym \<Rightarrow>
             (let m1 = flag_error
                         (zj_safe_proc_call E (procs (script m) mouse_up_proc)
                            [Fixnum x, Fixnum y, button_sym] m)
              in Inr (m1\<lparr>mouseIsPressed := False\<rparr>)))
      else Inr m)"

definition windowResized :: "'g engine \<Rightarrow> int \<Rightarrow> int \<Rightarrow> 'g machine \<Rightarrow> 'g machine" where
  "windowResized E w h m =
     (if state m = INTERPRETER_RUNNING then
        flag_error
          (zj_safe_proc_call E (procs (script m) window_resized_proc) [Fixnum w, Fixnum h] m)
      else m)"

subsection \<open>Initialisation and loading\<close>

text \<open>
  \<^verbatim>\<open>rb_str_split(str, ":")\<close> is Ruby's \<^verbatim>\<open>str.split(":")\<close>: the fields between the
  separators, without the empty fields at the end.
\<close>

fun fields :: "char \<Rightarrow> string \<Rightarrow> string list" where
  "fields sep [] = [[]]"
| "fields sep (c # cs) =
     (if c = sep then [] # fields sep cs
      else (case fields sep cs of
              [] \<Rightarrow> [[c]]
            | f # fs \<Rightarrow> (c # f) # fs))"

definition rb_str_split :: "string \<Rightarrow> char \<Rightarrow> VALUE list" where
  "rb_str_split str sep = map Str (rev (dropWhile (\<lambda>f. f = []) (rev (fields sep str))))"

text \<open>\<^verbatim>\<open>rb_ary_push(rb_gv_get("$:"), v)\<close> appends to the load path.\<close>

definition push_load_path :: "VALUE \<Rightarrow> 'g machine \<Rightarrow> 'g machine" where
  "push_load_path v m = m\<lparr>script := (script m)\<lparr>load_path := load_path (script m) @ [v]\<rparr>\<rparr>"

text \<open>Ruby's \<^verbatim>\<open>uniq!\<close> keeps the first occurrence of every element.\<close>

definition uniq :: "'a list \<Rightarrow> 'a list" where
  "uniq xs = rev (remdups (rev xs))"

definition appendLoadPath :: "os \<Rightarrow> string \<Rightarrow> 'g machine \<Rightarrow> 'g machine" where
  "appendLoadPath F path m =
     (case realpath F path of
        Some resolved_path \<Rightarrow> push_load_path (rb_str_new2 resolved_path) m
      | None \<Rightarrow> m)"

text \<open>
  The first part of \<^verbatim>\<open>initialize\<close>, up to the test of the load path. \<open>env\<close> is what
  \<^verbatim>\<open>getenv("ZAJAL_PATH")\<close> returns.
\<close>

fun push_zajal_path :: "VALUE list \<Rightarrow> 'g machine \<Rightarrow> 'g machine" where
  "push_zajal_path [] m = m"
| "push_zajal_path (v # vs) m =
     push_zajal_path vs
       (logConsoleText ''$stdout'' (LogZajalPathEntry v) (push_load_path v m))"

definition initialize_load_path ::
  "config \<Rightarrow> string option \<Rightarrow> 'g machine \<Rightarrow> fatal + 'g machine" where
  "initialize_load_path C env m =
     (let m1 = (case env of
                  None \<Rightarrow> m
                | Some env_zajal_path \<Rightarrow>
                    logConsoleText ''$stdout'' LogZajalPathClose
                      (push_zajal_path (rb_str_split (c_str env_zajal_path) CHR '':'')
                         (logConsoleText ''$stdout'' LogZajalPathOpen m)));
          m2 = (if EMPTY_LOADPATH C then m1
                else push_load_path (rb_str_new2 (ZAJAL_RUBY_STDLIB_PATH C))
                       (push_load_path (rb_str_new2 (ZAJAL_LIBRARY_PATH C)) m1))
      in if length (load_path (script m2)) = 0 then Inl (Exit 2 NoLoadPathSet)
         else Inr m2)"

definition initialize ::
  "config \<Rightarrow> 'g engine \<Rightarrow> string option \<Rightarrow> 'g machine \<Rightarrow> fatal + 'g machine" where
  "initialize C E env m =
     (case initialize_load_path C env m of
        Inl e \<Rightarrow> Inl e
      | Inr m2 \<Rightarrow>
          (let w3 = include_Math E (rb_enc_find E ''encdb'' (script m2))
           in case rb_require E ''open-uri'' w3 of
                None \<Rightarrow> Inl UncaughtException
              | Some w4 \<Rightarrow>
                  (case rb_require E ''zajal'' w4 of
                     None \<Rightarrow> Inl UncaughtException
                   | Some w5 \<Rightarrow> Inr (m2\<lparr>script := w5\<rparr>))))"

text \<open>
  \<^verbatim>\<open>loadScript\<close>. \<^verbatim>\<open>dirname\<close> of a null pointer is the string \<^verbatim>\<open>"."\<close>.
  \<^verbatim>\<open>rb_ary_unshift\<close> puts an element in front.
\<close>

definition loadScript ::
  "'g engine \<Rightarrow> os \<Rightarrow> string \<Rightarrow> 'g machine \<Rightarrow> fatal + 'g machine" where
  "loadScript E F fileName m =
     (case stat_mtime F fileName of
        None \<Rightarrow> Inl (Exit 1 (CouldNotAccess fileName))
      | Some t \<Rightarrow>
          (let script_directory =
                 rb_str_new2 (case realpath F fileName of
                                None \<Rightarrow> ''.''
                              | Some scriptNameResolved \<Rightarrow> dirname F scriptNameResolved);
               w = script m;
               w1 = w\<lparr>data_path := script_directory\<rparr>;
               w2 = w1\<lparr>load_path := uniq (script_directory # load_path w1)\<rparr>;
               w3 = w2\<lparr>watched_files :=
                         rb_str_new2 (zj_to_data_path E w2 fileName) # watched_files w2\<rparr>
           in Inr (m\<lparr>scriptName := Some fileName, script := w3\<rparr>)))"

definition run_begin ::
  "bool \<Rightarrow> 'g engine \<Rightarrow> os \<Rightarrow> 'g machine \<Rightarrow> fatal + 'g machine" where
  "run_begin fd E F m = reloadScript E F fd None (m\<lparr>state := INTERPRETER_RUNNING\<rparr>)"

section \<open>Intermediate states and sample data\<close>

text \<open>
  The machine right after the call of the main entry point of a phase (before the test of
  \<^verbatim>\<open>ruby_error\<close> that follows it), for a machine that is running.
\<close>

definition update_prehooks_done :: "'g engine \<Rightarrow> 'g machine \<Rightarrow> 'g machine" where
  "update_prehooks_done E m =
     (let m1 = set_current_event ''update'' m;
          m2 = zj_safe_proc_call E (procs (script m1) defaults_proc) [] m1
      in run_hooks E (hooks (script m2) update_prehooks) m2)"

definition update_entry :: "'g engine \<Rightarrow> 'g machine \<Rightarrow> 'g machine" where
  "update_entry E m =
     (let m3 = update_prehooks_done E m
      in zj_safe_proc_call E (procs (script m3) update_proc) [] m3)"

definition draw_entry :: "'g engine \<Rightarrow> 'g machine \<Rightarrow> 'g machine" where
  "draw_entry E m =
     (let m1 = set_current_event ''draw'' m;
          m2 = run_hooks E (hooks (script m1) draw_prehooks) m1;
          m3 = m2\<lparr>script := zj_graphics_reset_frame E (script m2)\<rparr>
      in zj_safe_proc_call E (procs (script m3) draw_proc) [] m3)"

text \<open>The machine after the loop of the draw posthooks.\<close>

definition draw_posthooks_done :: "'g engine \<Rightarrow> 'g machine \<Rightarrow> 'g machine" where
  "draw_posthooks_done E m =
     (let m4 = flag_error (draw_entry E m)
      in run_hooks_checked E (hooks (script m4) draw_posthooks) m4)"

definition exit_entry :: "'g engine \<Rightarrow> 'g machine \<Rightarrow> 'g machine" where
  "exit_entry E m =
     (let m' = run_hooks E (hooks (script m) exit_prehooks) m
      in flag_error (zj_safe_proc_call E (procs (script m') exit_proc) [] m'))"

text \<open>
  In \<^verbatim>\<open>reloadScript\<close>: the file that is read, the machine right before the call
  that evaluates its content, and the arguments of that call.
\<close>

definition reload_file :: "string option \<Rightarrow> 'g machine \<Rightarrow> string option" where
  "reload_file filename m = (case filename of None \<Rightarrow> scriptName m | Some f \<Rightarrow> Some f)"

definition before_evaluation ::
  "'g engine \<Rightarrow> bool \<Rightarrow> string \<Rightarrow> 'g machine \<Rightarrow> 'g machine" where
  "before_evaluation E forced' content m =
     (let m1 = logConsoleText ''$stdout'' (LogReading (scriptName m) (int (length content))) m
      in if forced' then
           snd (zj_safe_funcall E rb_cObject ''live_load'' [rb_str_new2 [], Qtrue] m1)
         else m1)"

definition evaluation_args :: "bool \<Rightarrow> string \<Rightarrow> VALUE list" where
  "evaluation_args forced' content =
     [rb_str_new2 content, if forced' then Qtrue else Qfalse]"

definition evaluation_failed ::
  "'g engine \<Rightarrow> bool \<Rightarrow> string \<Rightarrow> 'g machine \<Rightarrow> bool" where
  "evaluation_failed E forced' content m =
     fst (fst (funcall E rb_cObject ''live_load'' (evaluation_args forced' content)
                 (script (before_evaluation E forced' content m))))"

text \<open>In the watch poll: a newer file advances the shared timestamp.\<close>

definition advance_timestamp :: "string \<Rightarrow> int \<Rightarrow> 'g machine \<Rightarrow> 'g machine" where
  "advance_timestamp filePath mtime m =
     (logConsoleText ''$stdout'' (LogUpdatingInPlace filePath) m)\<lparr>scriptModifiedTime := mtime\<rparr>"

text \<open>
  In \<^verbatim>\<open>loadScript\<close>: the Ruby side once the data path is set and the load path
  deduplicated, which is where \<^verbatim>\<open>zj_to_data_path\<close> runs.
\<close>

definition data_path_set :: "os \<Rightarrow> string \<Rightarrow> 'g world \<Rightarrow> 'g world" where
  "data_path_set F fileName w =
     (let script_directory =
            rb_str_new2 (case realpath F fileName of
                           None \<Rightarrow> ''.''
                         | Some scriptNameResolved \<Rightarrow> dirname F scriptNameResolved)
      in w\<lparr>data_path := script_directory,
           load_path := uniq (script_directory # load_path w)\<rparr>)"

text \<open>
  In \<^verbatim>\<open>initialize\<close>: the entries of the environment variable and the default
  entries.
\<close>

definition zajal_path_entries :: "string option \<Rightarrow> VALUE list" where
  "zajal_path_entries env =
     (case env of
        None \<Rightarrow> []
      | Some env_zajal_path \<Rightarrow> rb_str_split (c_str env_zajal_path) CHR '':'')"

definition default_entries :: "config \<Rightarrow> VALUE list" where
  "default_entries C =
     (if EMPTY_LOADPATH C then []
      else [rb_str_new2 (ZAJAL_LIBRARY_PATH C), rb_str_new2 (ZAJAL_RUBY_STDLIB_PATH C)])"

text \<open>The number of watch polls, and a run of draw calls, one file system per call.\<close>

definition polls :: "event list \<Rightarrow> nat" where
  "polls t = count_list t WatchPoll"

fun draws ::
  "config \<Rightarrow> bool \<Rightarrow> 'g engine \<Rightarrow> os list \<Rightarrow> 'g machine \<Rightarrow> fatal + 'g machine" where
  "draws C fd E [] m = Inr m"
| "draws C fd E (F # Fs) m =
     (case draw C fd E F m of
        Inl e \<Rightarrow> Inl e
      | Inr m' \<Rightarrow> draws C fd E Fs m')"

text \<open>
  What the host loop and the front end deliver to the interpreter: the callbacks, a
  reload and a load, each with the file system of that moment. \<open>step\<close> is the call of
  the function an input stands for, \<open>steps\<close> a run of inputs that ends at the first
  fatal result.
\<close>

datatype input =
    Setup
  | Update
  | Draw os
  | ExitApp
  | KeyPressed int
  | KeyReleased int
  | MouseMoved int int
  | MouseDragged int int int
  | MousePressed int int int
  | MouseReleased int int int
  | WindowResized int int
  | Reload bool "string option" os
  | LoadScript string os

definition step ::
  "config \<Rightarrow> bool \<Rightarrow> 'g engine \<Rightarrow> input \<Rightarrow> 'g machine \<Rightarrow> fatal + 'g machine" where
  "step C fd E ev m =
     (case ev of
        Setup \<Rightarrow> Inr (setup_phase E m)
      | Update \<Rightarrow> Inr (update E m)
      | Draw F \<Rightarrow> draw C fd E F m
      | ExitApp \<Rightarrow> Inr (exit_phase E m)
      | KeyPressed key \<Rightarrow> keyPressed E key m
      | KeyReleased key \<Rightarrow> keyReleased E key m
      | MouseMoved x y \<Rightarrow> Inr (mouseMoved E x y m)
      | MouseDragged x y button \<Rightarrow> mouseDragged E x y button m
      | MousePressed x y button \<Rightarrow> mousePressed E x y button m
      | MouseReleased x y button \<Rightarrow> mouseReleased E x y button m
      | WindowResized w h \<Rightarrow> Inr (windowResized E w h m)
      | Reload forced filename F \<Rightarrow> reloadScript E F forced filename m
      | LoadScript fileName F \<Rightarrow> loadScript E F fileName m)"

fun steps ::
  "config \<Rightarrow> bool \<Rightarrow> 'g engine \<Rightarrow> input list \<Rightarrow> 'g machine \<Rightarrow> fatal + 'g machine" where
  "steps C fd E [] m = Inr m"
| "steps C fd E (ev # evs) m =
     (case step C fd E ev m of
        Inl e \<Rightarrow> Inl e
      | Inr m' \<Rightarrow> steps C fd E evs m')"

text \<open>
  An input that reaches a release handler while the state is Running, and one that
  reaches a handler that stores the pointer while the state is Running.
\<close>

definition releases_mouse :: "input \<Rightarrow> 'g machine \<Rightarrow> bool" where
  "releases_mouse ev m =
     (case ev of
        MouseReleased x y button \<Rightarrow> state m = INTERPRETER_RUNNING
      | _ \<Rightarrow> False)"

definition releases_key :: "input \<Rightarrow> 'g machine \<Rightarrow> bool" where
  "releases_key ev m =
     (case ev of
        KeyReleased key \<Rightarrow> state m = INTERPRETER_RUNNING
      | _ \<Rightarrow> False)"

definition moves_pointer :: "input \<Rightarrow> 'g machine \<Rightarrow> bool" where
  "moves_pointer ev m =
     (case ev of
        MousePressed x y button \<Rightarrow> state m = INTERPRETER_RUNNING
      | MouseDragged x y button \<Rightarrow> state m = INTERPRETER_RUNNING
      | _ \<Rightarrow> False)"

text \<open>
  A run in which no mouse release, press or drag arrives while the state is Running (a
  release that arrives in another state is allowed), and the same for key releases.
\<close>

fun mouse_undisturbed ::
  "config \<Rightarrow> bool \<Rightarrow> 'g engine \<Rightarrow> input list \<Rightarrow> 'g machine \<Rightarrow> bool" where
  "mouse_undisturbed C fd E [] m = True"
| "mouse_undisturbed C fd E (ev # evs) m =
     (\<not> releases_mouse ev m \<and> \<not> moves_pointer ev m \<and>
      (case step C fd E ev m of
         Inl e \<Rightarrow> True
       | Inr m' \<Rightarrow> mouse_undisturbed C fd E evs m'))"

fun key_undisturbed ::
  "config \<Rightarrow> bool \<Rightarrow> 'g engine \<Rightarrow> input list \<Rightarrow> 'g machine \<Rightarrow> bool" where
  "key_undisturbed C fd E [] m = True"
| "key_undisturbed C fd E (ev # evs) m =
     (\<not> releases_key ev m \<and>
      (case step C fd E ev m of
         Inl e \<Rightarrow> True
       | Inr m' \<Rightarrow> key_undisturbed C fd E evs m'))"

text \<open>The fields that the input handlers keep between events.\<close>

definition input_fields :: "'g machine \<Rightarrow> bool \<times> bool \<times> VALUE \<times> VALUE \<times> VALUE" where
  "input_fields m =
     (mouseIsPressed m, keyIsPressed m, lastMouseX m, lastMouseY m, lastMouseButton m)"

text \<open>
  What the engine is left with when the callables of a list are invoked in order, each
  with no arguments, written on the engine's own operation.
\<close>

abbreviation invoke_all :: "'g engine \<Rightarrow> VALUE list \<Rightarrow> 'g world \<Rightarrow> 'g world" where
  "invoke_all E hs w \<equiv> foldl (\<lambda>w h. snd (proc_call E h [] w)) w hs"

text \<open>
  A sample engine: a callable \<open>Proc n\<close> fails when \<open>n\<close> is odd, and the evaluation of
  the text \<^verbatim>\<open>raise\<close> fails. A sample file system with three files.
\<close>

definition sample_engine :: "unit engine" where
  "sample_engine =
     \<lparr>proc_call = (\<lambda>p args w. ((case p of Proc n \<Rightarrow> odd n | _ \<Rightarrow> False), w)),
      funcall = (\<lambda>recv mid args w.
        (case args of
           [Str code, reset] \<Rightarrow>
             if mid = ''live_load''
             then ((code = ''raise'', Qnil), w\<lparr>current_code := Str code\<rparr>)
             else ((False, Qnil), w)
         | _ \<Rightarrow> ((False, Qnil), w))),
      kernel_load = (\<lambda>path w. Some w),
      rb_require = (\<lambda>name w. Some w),
      rb_const_get = (\<lambda>w name. Some (Class name)),
      rb_enc_find = (\<lambda>name w. w),
      include_Math = (\<lambda>w. w),
      zj_graphics_reset_frame = (\<lambda>w. w),
      zj_to_data_path = (\<lambda>w path. path),
      error_class = (\<lambda>w. ''RuntimeError''),
      error_message = (\<lambda>w. ''failed''),
      error_backtrace = (\<lambda>w. [])\<rparr>"

definition sample_world ::
  "(event_slot \<Rightarrow> VALUE) \<Rightarrow> (hook_slot \<Rightarrow> VALUE list) \<Rightarrow> unit world" where
  "sample_world ps hs =
     \<lparr>procs = ps, hooks = hs, current_event = Qnil, watched_files = [], load_path = [],
      data_path = Qnil, current_code = Qnil, verbose = Qtrue, console = [], user = ()\<rparr>"

definition sample_os :: os where
  "sample_os =
     \<lparr>stat_mtime = (\<lambda>p. if p = ''sketch.rb'' then Some 5
                         else if p = ''lib.rb'' then Some 7
                         else if p = ''bad.rb'' then Some 9 else None),
      file_content = (\<lambda>p. if p = ''sketch.rb'' then Some ''circle 10''
                           else if p = ''lib.rb'' then Some ''def f; end''
                           else if p = ''bad.rb'' then Some ''raise'' else None),
      realpath = (\<lambda>p. Some (''/home/'' @ p)),
      dirname = (\<lambda>p. ''/home'')\<rparr>"

definition sample_config :: config where
  "sample_config =
     \<lparr>SCRIPT_UPDATE_FREQUENCY = 2, DEFAULT_INITIAL_WIDTH = 500,
      DEFAULT_INITIAL_HEIGHT = 500, EMPTY_LOADPATH = False,
      ZAJAL_LIBRARY_PATH = ''/lib/zajal'', ZAJAL_RUBY_STDLIB_PATH = ''/lib/ruby''\<rparr>"

definition sample_procs :: "event_slot \<Rightarrow> VALUE" where
  "sample_procs slot =
     (case slot of
        defaults_proc \<Rightarrow> Proc 0
      | update_proc \<Rightarrow> Proc 1
      | draw_proc \<Rightarrow> Proc 3
      | exit_proc \<Rightarrow> Proc 4
      | mouse_down_proc \<Rightarrow> Proc 5
      | mouse_pressed_proc \<Rightarrow> Proc 6
      | _ \<Rightarrow> Proc 8)"

definition sample_hooks :: "hook_slot \<Rightarrow> VALUE list" where
  "sample_hooks slot =
     (case slot of
        update_prehooks \<Rightarrow> [Proc 20]
      | update_posthooks \<Rightarrow> [Proc 22]
      | draw_prehooks \<Rightarrow> [Proc 30]
      | draw_posthooks \<Rightarrow> [Proc 32, Proc 35, Proc 34]
      | exit_prehooks \<Rightarrow> [Proc 40]
      | exit_posthooks \<Rightarrow> [Proc 42, Proc 44])"

text \<open>A machine for the sample world, in a given state.\<close>

definition sample_machine ::
  "InterpreterState \<Rightarrow> (event_slot \<Rightarrow> VALUE) \<Rightarrow> (hook_slot \<Rightarrow> VALUE list) \<Rightarrow> unit machine" where
  "sample_machine st ps hs =
     (ZajalInterpreter sample_config Qnil (sample_world ps hs))
       \<lparr>state := st, scriptName := Some ''sketch.rb''\<rparr>"

text \<open>
  The sample machine watching its script and a library, and one whose load path has an
  entry from the command line.
\<close>

definition sample_watching :: "InterpreterState \<Rightarrow> int \<Rightarrow> unit machine" where
  "sample_watching st seen =
     (sample_machine st sample_procs sample_hooks)
       \<lparr>scriptModifiedTime := seen,
        script := (sample_world sample_procs sample_hooks)
                    \<lparr>watched_files := [Str ''sketch.rb'', Str ''lib.rb''],
                     verbose := Qfalse\<rparr>\<rparr>"

definition sample_with_load_path :: "VALUE list \<Rightarrow> unit machine" where
  "sample_with_load_path lp =
     (sample_machine INTERPRETER_NO_SKETCH sample_procs sample_hooks)
       \<lparr>script := (sample_world sample_procs sample_hooks)
                    \<lparr>load_path := lp, verbose := Qfalse\<rparr>\<rparr>"

section \<open>Properties\<close>

subsection \<open>Basic facts about the calls, the hook loops and the phases\<close>

lemma zj_safe_proc_call_eq:
  "zj_safe_proc_call E p args m =
     m\<lparr>ruby_error := fst (proc_call E p args (script m)),
       script := snd (proc_call E p args (script m)),
       trace := trace m @ [ProcCall p args]\<rparr>"
  by (simp add: zj_safe_proc_call_def split: prod.split)

lemma zj_safe_funcall_eq:
  "snd (zj_safe_funcall E recv mid args m) =
     m\<lparr>ruby_error := fst (fst (funcall E recv mid args (script m))),
       script := snd (funcall E recv mid args (script m)),
       trace := trace m @ [Funcall recv mid args]\<rparr>"
  by (simp add: zj_safe_funcall_def split: prod.split)

lemma trace_run_hooks:
  "trace (run_hooks E hs m) = trace m @ map (\<lambda>h. ProcCall h []) hs"
  by (induction hs arbitrary: m) (simp_all add: zj_safe_proc_call_eq)

lemma trace_flag_error: "trace (flag_error m) = trace m"
  by (simp add: flag_error_def)

lemma trace_run_hooks_checked:
  "trace (run_hooks_checked E hs m) = trace m @ map (\<lambda>h. ProcCall h []) hs"
  by (induction hs arbitrary: m) (simp_all add: zj_safe_proc_call_eq trace_flag_error)

lemma state_flag_error_sticky:
  "state m = INTERPRETER_ERROR \<Longrightarrow> state (flag_error m) = INTERPRETER_ERROR"
  by (simp add: flag_error_def)




lemma state_zj_safe_proc_call [simp]: "state (zj_safe_proc_call E p args m) = state m"
  by (simp add: zj_safe_proc_call_eq)

lemma state_run_hooks [simp]: "state (run_hooks E hs m) = state m"
  by (induction hs arbitrary: m) simp_all



lemma draw_switch_running:
  "state m = INTERPRETER_RUNNING \<Longrightarrow>
   draw_switch E m =
     flag_error
       (if mouseIsPressed (draw_posthooks_done E m) then
          zj_safe_proc_call E (procs (script (draw_posthooks_done E m)) mouse_pressed_proc)
            [lastMouseX (draw_posthooks_done E m), lastMouseY (draw_posthooks_done E m),
             lastMouseButton (draw_posthooks_done E m)] (draw_posthooks_done E m)
        else draw_posthooks_done E m)"
  by (simp add: draw_switch_def draw_running_def draw_posthooks_done_def draw_entry_def Let_def)



lemma trace_exit_entry:
  "trace (exit_entry E m) =
     trace m @ map (\<lambda>h. ProcCall h []) (hooks (script m) exit_prehooks) @
     [ProcCall (procs (script (run_hooks E (hooks (script m) exit_prehooks) m)) exit_proc) []]"
  by (simp add: exit_entry_def Let_def trace_flag_error trace_run_hooks zj_safe_proc_call_eq)

lemma exit_phase_eq:
  "exit_phase E m =
     (if state m = INTERPRETER_RUNNING
      then run_hooks E (hooks (script (exit_entry E m)) exit_posthooks) (exit_entry E m)
      else run_hooks E (hooks (script m) exit_posthooks) m)"
  by (simp add: exit_phase_def exit_entry_def Let_def)

lemma reloadScript_readable:
  assumes "reload_file filename m = Some f" and "file_content F f = Some content"
  shows "reloadScript E F forced filename m =
           Inr ((snd (zj_safe_funcall E rb_cObject ''live_load''
                  (evaluation_args (forced \<or> state m = INTERPRETER_ERROR) content)
                  (before_evaluation E (forced \<or> state m = INTERPRETER_ERROR) content m)))
                \<lparr>state := (if evaluation_failed E (forced \<or> state m = INTERPRETER_ERROR) content m
                            then INTERPRETER_ERROR else INTERPRETER_RUNNING)\<rparr>)"
  using assms
  by (simp add: reloadScript_def reload_file_def before_evaluation_def evaluation_args_def
      evaluation_failed_def Let_def zj_safe_funcall_eq)

lemma trace_logConsoleText [simp]: "trace (logConsoleText c msg m) = trace m"
  by (simp add: logConsoleText_def)

lemma trace_before_evaluation:
  "trace (before_evaluation E forced' content m) =
     trace m @ (if forced' then [Funcall rb_cObject ''live_load'' [rb_str_new2 [], Qtrue]] else [])"
  by (simp add: before_evaluation_def Let_def zj_safe_funcall_eq)

lemmas sample_defs =
  sample_machine_def sample_world_def sample_engine_def sample_procs_def sample_hooks_def
  sample_config_def ZajalInterpreter_def

lemmas phase_defs =
  update_def update_entry_def update_prehooks_done_def draw_switch_def draw_running_def
  draw_entry_def draw_error_def draw_posthooks_done_def exit_phase_def exit_entry_def
  set_current_event_def zj_safe_proc_call_def zj_safe_funcall_def flag_error_def
  logConsoleText_def rb_str_new2_def c_str_def rb_cObject_def RTEST_def

lemma polls_append [simp]: "polls (t @ u) = polls t + polls u"
  by (simp add: polls_def)

lemma polls_simps [simp]:
  "polls [] = 0"
  "polls (ProcCall p args # t) = polls t"
  "polls (Funcall r mid args # t) = polls t"
  "polls (KernelLoad path # t) = polls t"
  "polls (WatchPoll # t) = Suc (polls t)"
  by (simp_all add: polls_def)

lemma polls_map_ProcCall [simp]: "polls (map (\<lambda>h. ProcCall h []) hs) = 0"
  by (induction hs) simp_all

lemma nextUpdate_run_hooks [simp]: "nextUpdate (run_hooks E hs m) = nextUpdate m"
  by (induction hs arbitrary: m) (simp_all add: zj_safe_proc_call_eq)

lemma nextUpdate_run_hooks_checked [simp]:
  "nextUpdate (run_hooks_checked E hs m) = nextUpdate m"
  by (induction hs arbitrary: m) (simp_all add: zj_safe_proc_call_eq flag_error_def)

lemma nextUpdate_flag_error [simp]: "nextUpdate (flag_error m) = nextUpdate m"
  by (simp add: flag_error_def)

lemma fold_log_fields [simp]:
  "nextUpdate (fold (\<lambda>x. logConsoleText c (g x)) xs m) = nextUpdate m"
  "trace (fold (\<lambda>x. logConsoleText c (g x)) xs m) = trace m"
  "state (fold (\<lambda>x. logConsoleText c (g x)) xs m) = state m"
  by (induction xs arbitrary: m) (simp_all add: logConsoleText_def)

lemma draw_switch_counter:
  "nextUpdate (draw_switch E m) = nextUpdate m"
  "polls (trace (draw_switch E m)) = polls (trace m)"
  by (cases "state m";
      simp add: draw_switch_def draw_running_def draw_error_def Let_def zj_safe_proc_call_eq
        zj_safe_funcall_eq set_current_event_def trace_run_hooks trace_run_hooks_checked
        trace_flag_error logConsoleText_def)+

lemma reloadScript_counter:
  assumes "reloadScript E F forced filename m = Inr m'"
  shows "nextUpdate m' = nextUpdate m" and "polls (trace m') = polls (trace m)"
  using assms
  by (auto simp: reloadScript_def Let_def zj_safe_funcall_eq logConsoleText_def
      split: option.splits if_splits)

lemma rb_load_counter:
  assumes "rb_load E path m = Inr m'"
  shows "nextUpdate m' = nextUpdate m" and "polls (trace m') = polls (trace m)"
  using assms by (auto simp: rb_load_def split: option.splits)

lemma c_str_idem [simp]: "c_str (c_str s) = c_str s"
proof -
  have "\<forall>c \<in> set (takeWhile (\<lambda>c. c \<noteq> CHR 0x00) s). c \<noteq> CHR 0x00"
    by (auto dest: set_takeWhileD)
  then show ?thesis
    unfolding c_str_def by (simp only: takeWhile_eq_all_conv)
qed

lemma watch_file_Str:
  "watch_file fd E F i (Str s) m =
     (case stat_mtime F (c_str s) of
        None \<Rightarrow> Inl (Exit 1 (CouldNotAccess (c_str s)))
      | Some mtime \<Rightarrow>
          if mtime > scriptModifiedTime m then
            (case (if i > 0 then rb_load E (c_str s) (advance_timestamp (c_str s) mtime m)
                   else Inr (advance_timestamp (c_str s) mtime m)) of
               Inl e \<Rightarrow> Inl e
             | Inr m3 \<Rightarrow> reloadScript E F fd None m3)
          else Inr m)"
  by (simp add: watch_file_def advance_timestamp_def Let_def split: option.split)

lemma watch_file_counter:
  assumes "watch_file fd E F i v m = Inr m'"
  shows "nextUpdate m' = nextUpdate m \<and> polls (trace m') = polls (trace m)"
proof (cases v)
  case (Str s)
  show ?thesis
  proof (cases "stat_mtime F (c_str s)")
    case None
    with Str assms show ?thesis by (simp add: watch_file_Str)
  next
    case (Some mtime)
    show ?thesis
    proof (cases "mtime > scriptModifiedTime m")
      case False
      with Str Some assms show ?thesis by (simp add: watch_file_Str)
    next
      case True
      let ?m2 = "advance_timestamp (c_str s) mtime m"
      have m2: "nextUpdate ?m2 = nextUpdate m" "polls (trace ?m2) = polls (trace m)"
        by (simp_all add: advance_timestamp_def logConsoleText_def)
      from Str Some True assms obtain m3 where
        m3: "(if i > 0 then rb_load E (c_str s) ?m2 else Inr ?m2) = Inr m3"
        and r: "reloadScript E F fd None m3 = Inr m'"
        by (auto simp: watch_file_Str split: sum.splits)
      have "nextUpdate m3 = nextUpdate m \<and> polls (trace m3) = polls (trace m)"
        using m3 m2 rb_load_counter [of E "c_str s" ?m2 m3] by (auto split: if_splits)
      with reloadScript_counter [OF r] show ?thesis by simp
    qed
  qed
qed (use assms in \<open>simp_all add: watch_file_def\<close>)

lemma watch_files_loop_counter:
  "watch_files_loop fd E F i vs m = Inr m' \<Longrightarrow>
   nextUpdate m' = nextUpdate m \<and> polls (trace m') = polls (trace m)"
proof (induction vs arbitrary: i m)
  case Nil
  then show ?case by simp
next
  case (Cons v vs)
  from Cons.prems obtain m1 where
    one: "watch_file fd E F i v m = Inr m1" and
    rest: "watch_files_loop fd E F (Suc i) vs m1 = Inr m'"
    by (auto split: sum.splits)
  from watch_file_counter [OF one] Cons.IH [OF rest] show ?case by simp
qed

lemma updateCurrentScript_counter:
  assumes "updateCurrentScript C fd E F m = Inr m'"
  shows "nextUpdate m' = SCRIPT_UPDATE_FREQUENCY C" and "polls (trace m') = Suc (polls (trace m))"
proof -
  from assms obtain m1 where
    loop: "watch_files_loop fd E F 0 (watched_files (script m))
             (m\<lparr>trace := trace m @ [WatchPoll]\<rparr>) = Inr m1"
    and m': "m' = m1\<lparr>nextUpdate := SCRIPT_UPDATE_FREQUENCY C\<rparr>"
    by (auto simp: updateCurrentScript_def split: sum.splits)
  from watch_files_loop_counter [OF loop] m'
  show "nextUpdate m' = SCRIPT_UPDATE_FREQUENCY C" and "polls (trace m') = Suc (polls (trace m))"
    by simp_all
qed

lemma draw_counter:
  assumes "draw C fd E F m = Inr m'"
  shows "nextUpdate m' =
           (if nextUpdate m = 0 then SCRIPT_UPDATE_FREQUENCY C else nextUpdate m - 1)"
    and "polls (trace m') = polls (trace m) + (if nextUpdate m = 0 then 1 else 0)"
proof -
  let ?m2 = "(draw_switch E m)\<lparr>nextUpdate := nextUpdate m - 1\<rparr>"
  have m2: "polls (trace ?m2) = polls (trace m)"
    by (simp add: draw_switch_counter)
  show "nextUpdate m' =
           (if nextUpdate m = 0 then SCRIPT_UPDATE_FREQUENCY C else nextUpdate m - 1)"
  proof (cases "nextUpdate m = 0")
    case True
    with assms have "updateCurrentScript C fd E F ?m2 = Inr m'"
      by (simp add: draw_def Let_def draw_switch_counter)
    from updateCurrentScript_counter(1) [OF this] True show ?thesis by simp
  next
    case False
    with assms have "m' = ?m2"
      by (simp add: draw_def Let_def draw_switch_counter split: if_splits)
    with False show ?thesis by simp
  qed
  show "polls (trace m') = polls (trace m) + (if nextUpdate m = 0 then 1 else 0)"
  proof (cases "nextUpdate m = 0")
    case True
    with assms have "updateCurrentScript C fd E F ?m2 = Inr m'"
      by (simp add: draw_def Let_def draw_switch_counter)
    from updateCurrentScript_counter(2) [OF this] True m2 show ?thesis by simp
  next
    case False
    with assms have "m' = ?m2"
      by (simp add: draw_def Let_def draw_switch_counter split: if_splits)
    with False m2 show ?thesis by simp
  qed
qed

lemma poll_count_step:
  fixes K c n :: int
  assumes "0 \<le> c" "c \<le> K" "0 \<le> n"
  shows "(n + 1 + K - c) div (K + 1) =
         (if c = 0 then 1 else 0) + (n + K - (if c = 0 then K else c - 1)) div (K + 1)"
proof (cases "c = 0")
  case True
  have "(n + 1 + K) div (K + 1) = (n + (K + 1)) div (K + 1)"
    by (rule arg_cong [where f = "\<lambda>x. x div (K + 1)"]) simp
  also have "\<dots> = n div (K + 1) + 1"
    using assms True by (subst div_add_self2) simp_all
  finally show ?thesis using True by simp
next
  case False
  then show ?thesis by (simp add: algebra_simps)
qed

lemma scriptModifiedTime_reloadScript:
  "reloadScript E F forced filename m = Inr m' \<Longrightarrow> scriptModifiedTime m' = scriptModifiedTime m"
  by (auto simp: reloadScript_def Let_def zj_safe_funcall_eq logConsoleText_def
      split: option.splits if_splits)

lemma trace_reloadScript:
  assumes "reload_file filename m = Some f" and "file_content F f = Some content"
    and "reloadScript E F forced filename m = Inr m'"
  shows "trace m' =
           trace m @
           (if forced \<or> state m = INTERPRETER_ERROR
            then [Funcall rb_cObject ''live_load'' [rb_str_new2 [], Qtrue]] else []) @
           [Funcall rb_cObject ''live_load''
              (evaluation_args (forced \<or> state m = INTERPRETER_ERROR) content)]"
  using assms(3) unfolding reloadScript_readable [OF assms(1,2)]
  by (auto simp: zj_safe_funcall_eq trace_before_evaluation)

lemma reloadScript_Inr_file:
  assumes "reloadScript E F forced filename m = Inr m'"
  shows "\<exists>f content. reload_file filename m = Some f \<and> file_content F f = Some content"
  using assms by (auto simp: reloadScript_def reload_file_def split: option.splits)

lemma rb_load_Inr:
  "rb_load E path m = Inr m3 \<Longrightarrow>
   kernel_load E (c_str path) (script m) = Some (script m3) \<and>
   m3 = m\<lparr>script := script m3, trace := trace m @ [KernelLoad (c_str path)]\<rparr>"
  by (auto simp: rb_load_def split: option.splits)

lemma advance_timestamp_fields [simp]:
  "trace (advance_timestamp p t m) = trace m"
  "state (advance_timestamp p t m) = state m"
  "scriptName (advance_timestamp p t m) = scriptName m"
  "scriptModifiedTime (advance_timestamp p t m) = t"
  by (simp_all add: advance_timestamp_def logConsoleText_def)

lemma distinct_uniq: "distinct (uniq xs)"
  by (simp add: uniq_def)

lemma loadScript_accessible:
  assumes "stat_mtime F fileName = Some t"
  shows "loadScript E F fileName m =
           Inr (m\<lparr>scriptName := Some fileName,
                  script := (data_path_set F fileName (script m))
                    \<lparr>watched_files :=
                       rb_str_new2 (zj_to_data_path E (data_path_set F fileName (script m)) fileName)
                       # watched_files (script m)\<rparr>\<rparr>)"
  using assms by (simp add: loadScript_def data_path_set_def Let_def)

lemma load_path_logConsoleText [simp]:
  "load_path (script (logConsoleText c msg m)) = load_path (script m)"
  by (simp add: logConsoleText_def)

lemma load_path_push_load_path [simp]:
  "load_path (script (push_load_path v m)) = load_path (script m) @ [v]"
  by (simp add: push_load_path_def)

lemma load_path_push_zajal_path:
  "load_path (script (push_zajal_path vs m)) = load_path (script m) @ vs"
  by (induction vs arbitrary: m) simp_all

lemma initialize_load_path_eq:
  "\<exists>m2. load_path (script m2) = load_path (script m) @ zajal_path_entries env @ default_entries C \<and>
        initialize_load_path C env m =
          (if load_path (script m) @ zajal_path_entries env @ default_entries C = []
           then Inl (Exit 2 NoLoadPathSet) else Inr m2)"
  by (cases env)
     (auto simp: initialize_load_path_def Let_def zajal_path_entries_def default_entries_def
        load_path_push_zajal_path intro: exI [of _ m])

lemma pointer_zj_safe_proc_call [simp]:
  "mouseIsPressed (zj_safe_proc_call E p args m) = mouseIsPressed m"
  "keyIsPressed (zj_safe_proc_call E p args m) = keyIsPressed m"
  "lastMouseX (zj_safe_proc_call E p args m) = lastMouseX m"
  "lastMouseY (zj_safe_proc_call E p args m) = lastMouseY m"
  "lastMouseButton (zj_safe_proc_call E p args m) = lastMouseButton m"
  by (simp_all add: zj_safe_proc_call_eq)

lemma pointer_flag_error [simp]:
  "mouseIsPressed (flag_error m) = mouseIsPressed m"
  "keyIsPressed (flag_error m) = keyIsPressed m"
  "lastMouseX (flag_error m) = lastMouseX m"
  "lastMouseY (flag_error m) = lastMouseY m"
  "lastMouseButton (flag_error m) = lastMouseButton m"
  by (simp_all add: flag_error_def)

lemma pointer_run_hooks [simp]:
  "mouseIsPressed (run_hooks E hs m) = mouseIsPressed m"
  "keyIsPressed (run_hooks E hs m) = keyIsPressed m"
  "lastMouseX (run_hooks E hs m) = lastMouseX m"
  "lastMouseY (run_hooks E hs m) = lastMouseY m"
  "lastMouseButton (run_hooks E hs m) = lastMouseButton m"
  by (induction hs arbitrary: m) simp_all

lemma pointer_run_hooks_checked [simp]:
  "mouseIsPressed (run_hooks_checked E hs m) = mouseIsPressed m"
  "keyIsPressed (run_hooks_checked E hs m) = keyIsPressed m"
  "lastMouseX (run_hooks_checked E hs m) = lastMouseX m"
  "lastMouseY (run_hooks_checked E hs m) = lastMouseY m"
  "lastMouseButton (run_hooks_checked E hs m) = lastMouseButton m"
  by (induction hs arbitrary: m) simp_all

lemma pointer_draw_posthooks_done:
  "mouseIsPressed (draw_posthooks_done E m) = mouseIsPressed m"
  "keyIsPressed (draw_posthooks_done E m) = keyIsPressed m"
  "lastMouseX (draw_posthooks_done E m) = lastMouseX m"
  "lastMouseY (draw_posthooks_done E m) = lastMouseY m"
  "lastMouseButton (draw_posthooks_done E m) = lastMouseButton m"
  by (simp_all add: draw_posthooks_done_def draw_entry_def Let_def set_current_event_def)

lemma fold_log_pointer [simp]:
  "mouseIsPressed (fold (\<lambda>x. logConsoleText c (g x)) xs m) = mouseIsPressed m"
  "keyIsPressed (fold (\<lambda>x. logConsoleText c (g x)) xs m) = keyIsPressed m"
  "lastMouseX (fold (\<lambda>x. logConsoleText c (g x)) xs m) = lastMouseX m"
  "lastMouseY (fold (\<lambda>x. logConsoleText c (g x)) xs m) = lastMouseY m"
  "lastMouseButton (fold (\<lambda>x. logConsoleText c (g x)) xs m) = lastMouseButton m"
  by (induction xs arbitrary: m) (simp_all add: logConsoleText_def)

lemma draw_switch_error:
  assumes "state m = INTERPRETER_ERROR"
  shows "state (draw_switch E m) = INTERPRETER_ERROR"
    and "mouseIsPressed (draw_switch E m) = mouseIsPressed m"
    and "keyIsPressed (draw_switch E m) = keyIsPressed m"
    and "lastMouseX (draw_switch E m) = lastMouseX m"
    and "lastMouseY (draw_switch E m) = lastMouseY m"
    and "lastMouseButton (draw_switch E m) = lastMouseButton m"
  using assms
  by (simp_all add: draw_switch_def draw_error_def Let_def zj_safe_funcall_eq
      set_current_event_def logConsoleText_def)

lemma pointer_reloadScript:
  assumes "reloadScript E F forced filename m = Inr m'"
  shows "mouseIsPressed m' = mouseIsPressed m"
    and "keyIsPressed m' = keyIsPressed m"
    and "lastMouseX m' = lastMouseX m"
    and "lastMouseY m' = lastMouseY m"
    and "lastMouseButton m' = lastMouseButton m"
  using assms
  by (auto simp: reloadScript_def Let_def zj_safe_funcall_eq logConsoleText_def
      split: option.splits if_splits)

lemma mousePressed_running:
  assumes "state m0 = INTERPRETER_RUNNING" and "mousePressed E x y b m0 = Inr m"
  shows "mouseIsPressed m" and "lastMouseX m = Fixnum x" and "lastMouseY m = Fixnum y"
    and "zj_button_to_symbol b = Inr (lastMouseButton m)"
  using assms
  by (auto simp: mousePressed_def Let_def split: sum.splits)

lemma mouseReleased_running:
  assumes "state m0 = INTERPRETER_RUNNING" and "mouseReleased E x y b m0 = Inr m'"
  shows "\<not> mouseIsPressed m'"
  using assms by (auto simp: mouseReleased_def Let_def split: sum.splits)

lemma keyReleased_running:
  assumes "state m0 = INTERPRETER_RUNNING" and "keyReleased E k m0 = Inr m'"
  shows "\<not> keyIsPressed m'"
  using assms by (auto simp: keyReleased_def Let_def split: option.splits prod.splits)

lemma draw_polls_with_counter_minus_one:
  "nextUpdate m = 0 \<Longrightarrow>
   draw C fd E F m =
     updateCurrentScript C fd E F ((draw_switch E m)\<lparr>nextUpdate := - 1\<rparr>)"
  by (simp add: draw_def Let_def draw_switch_counter)

lemmas reload_defs =
  reloadScript_def reload_file_def before_evaluation_def evaluation_args_def
  evaluation_failed_def sample_os_def

lemmas poll_defs =
  draw_def updateCurrentScript_def watch_file_def rb_load_def sample_watching_def
  advance_timestamp_def Let_def

lemma sample_draws_3:
  "\<exists>m'. draws sample_config False sample_engine [sample_os, sample_os, sample_os]
     (sample_watching INTERPRETER_RUNNING 0) = Inr m'"
  by (simp add: poll_defs reload_defs sample_defs phase_defs)

lemmas handler_defs =
  mousePressed_def mouseReleased_def keyReleased_def keyPressed_def zj_button_to_symbol_def

lemma script_run_hooks:
  "script (run_hooks E hs m) = invoke_all E hs (script m)"
  by (induction hs arbitrary: m) (simp_all add: zj_safe_proc_call_eq)

lemma exit_entry_running:
  "script (exit_entry E m) =
     snd (proc_call E
            (procs (invoke_all E (hooks (script m) exit_prehooks) (script m)) exit_proc) []
            (invoke_all E (hooks (script m) exit_prehooks) (script m)))"
  "state m = INTERPRETER_RUNNING \<Longrightarrow>
   state (exit_entry E m) =
     (if fst (proc_call E
            (procs (invoke_all E (hooks (script m) exit_prehooks) (script m)) exit_proc) []
            (invoke_all E (hooks (script m) exit_prehooks) (script m)))
      then INTERPRETER_ERROR else INTERPRETER_RUNNING)"
  "trace (exit_entry E m) =
     trace m @ map (\<lambda>h. ProcCall h []) (hooks (script m) exit_prehooks) @
     [ProcCall (procs (invoke_all E (hooks (script m) exit_prehooks) (script m)) exit_proc) []]"
  by (simp_all add: exit_entry_def Let_def flag_error_def zj_safe_proc_call_eq script_run_hooks
      trace_run_hooks)

lemma watch_files_loop_snoc:
  "watch_files_loop fd E F i (xs @ [v]) m =
     (case watch_files_loop fd E F i xs m of
        Inl e \<Rightarrow> Inl e
      | Inr m' \<Rightarrow> watch_file fd E F (i + length xs) v m')"
  by (induction xs arbitrary: i m) (auto split: sum.splits)

lemma watch_files_loop_position:
  assumes "j < length vs" and "watch_files_loop fd E F 0 (take j vs) m0 = Inr m"
  shows "watch_files_loop fd E F 0 (take (Suc j) vs) m0 = watch_file fd E F j (vs ! j) m"
  using assms by (simp add: take_Suc_conv_app_nth watch_files_loop_snoc)

lemma script_logConsoleText:
  "script (logConsoleText c msg m) =
     (if verbose (script m) = Qfalse then script m
      else (script m)\<lparr>console := console (script m) @ [(c, msg)]\<rparr>)"
  by (simp add: logConsoleText_def)

lemma reloadScript_result:
  assumes "reloadScript E F forced None m3 = Inr m'"
  shows "\<exists>primary content.
           scriptName m3 = Some primary \<and> file_content F primary = Some content \<and>
           (let forced' = (forced \<or> state m3 = INTERPRETER_ERROR);
                wl = script (logConsoleText ''$stdout''
                               (LogReading (Some primary) (int (length content))) m3);
                wp = (if forced'
                      then snd (funcall E rb_cObject ''live_load'' [rb_str_new2 [], Qtrue] wl)
                      else wl);
                r = funcall E rb_cObject ''live_load'' (evaluation_args forced' content) wp
            in script m' = snd r \<and>
               state m' = (if fst (fst r) then INTERPRETER_ERROR else INTERPRETER_RUNNING) \<and>
               trace m' =
                 trace m3 @
                 (if forced' then [Funcall rb_cObject ''live_load'' [rb_str_new2 [], Qtrue]]
                  else []) @
                 [Funcall rb_cObject ''live_load'' (evaluation_args forced' content)] \<and>
               scriptModifiedTime m' = scriptModifiedTime m3)"
proof -
  from reloadScript_Inr_file [OF assms] obtain primary content where
    p: "reload_file None m3 = Some primary" and c: "file_content F primary = Some content"
    by blast
  have n: "scriptName m3 = Some primary"
    using p by (simp add: reload_file_def)
  show ?thesis
    using assms n c unfolding reloadScript_readable [OF p c]
    by (auto simp: Let_def zj_safe_funcall_eq before_evaluation_def evaluation_failed_def
        logConsoleText_def)
qed

lemma input_fields_calls [simp]:
  "input_fields (zj_safe_proc_call E p args m) = input_fields m"
  "input_fields (snd (zj_safe_funcall E recv mid args m)) = input_fields m"
  "input_fields (flag_error m) = input_fields m"
  "input_fields (run_hooks E hs m) = input_fields m"
  "input_fields (run_hooks_checked E hs m) = input_fields m"
  "input_fields (set_current_event name m) = input_fields m"
  "input_fields (logConsoleText c msg m) = input_fields m"
  "input_fields (fold (\<lambda>x. logConsoleText c (g x)) xs m) = input_fields m"
  by (simp_all add: input_fields_def zj_safe_funcall_eq set_current_event_def logConsoleText_def)

lemma input_fields_updates [simp]:
  "input_fields (m\<lparr>state := st\<rparr>) = input_fields m"
  "input_fields (m\<lparr>script := w\<rparr>) = input_fields m"
  "input_fields (m\<lparr>trace := t\<rparr>) = input_fields m"
  "input_fields (m\<lparr>nextUpdate := n\<rparr>) = input_fields m"
  "input_fields (m\<lparr>scriptModifiedTime := ts\<rparr>) = input_fields m"
  "input_fields (m\<lparr>scriptName := sn\<rparr>) = input_fields m"
  by (simp_all add: input_fields_def)

lemma input_fields_phases:
  "input_fields (setup_phase E m) = input_fields m"
  "input_fields (update E m) = input_fields m"
  "input_fields (exit_phase E m) = input_fields m"
  "input_fields (mouseMoved E x y m) = input_fields m"
  "input_fields (windowResized E w h m) = input_fields m"
  by (simp_all add: setup_phase_def update_def exit_phase_def mouseMoved_def windowResized_def
      Let_def)

lemma input_fields_draw_switch: "input_fields (draw_switch E m) = input_fields m"
  by (cases "state m") (simp_all add: draw_switch_def draw_running_def draw_error_def Let_def)

lemma input_fields_reloadScript:
  "reloadScript E F forced filename m = Inr m' \<Longrightarrow> input_fields m' = input_fields m"
  by (simp add: input_fields_def pointer_reloadScript)

lemma input_fields_rb_load:
  "rb_load E path m = Inr m' \<Longrightarrow> input_fields m' = input_fields m"
  by (auto simp: rb_load_def split: option.splits)

lemma input_fields_watch_file:
  assumes "watch_file fd E F i v m = Inr m'"
  shows "input_fields m' = input_fields m"
proof (cases v)
  case (Str s)
  show ?thesis
  proof (cases "stat_mtime F (c_str s)")
    case None
    with Str assms show ?thesis by (simp add: watch_file_Str)
  next
    case (Some mtime)
    show ?thesis
    proof (cases "mtime > scriptModifiedTime m")
      case False
      with Str Some assms show ?thesis by (simp add: watch_file_Str)
    next
      case True
      let ?m2 = "advance_timestamp (c_str s) mtime m"
      have m2: "input_fields ?m2 = input_fields m"
        by (simp add: advance_timestamp_def)
      from Str Some True assms obtain m3 where
        m3: "(if i > 0 then rb_load E (c_str s) ?m2 else Inr ?m2) = Inr m3"
        and r: "reloadScript E F fd None m3 = Inr m'"
        by (auto simp: watch_file_Str split: sum.splits)
      have "input_fields m3 = input_fields m"
        using m3 m2 input_fields_rb_load [of E "c_str s" ?m2 m3] by (auto split: if_splits)
      with input_fields_reloadScript [OF r] show ?thesis by simp
    qed
  qed
qed (use assms in \<open>simp_all add: watch_file_def\<close>)

lemma input_fields_watch_files_loop:
  "watch_files_loop fd E F i vs m = Inr m' \<Longrightarrow> input_fields m' = input_fields m"
proof (induction vs arbitrary: i m)
  case Nil
  then show ?case by simp
next
  case (Cons v vs)
  from Cons.prems obtain m1 where
    one: "watch_file fd E F i v m = Inr m1" and
    rest: "watch_files_loop fd E F (Suc i) vs m1 = Inr m'"
    by (auto split: sum.splits)
  from input_fields_watch_file [OF one] Cons.IH [OF rest] show ?case by simp
qed

lemma input_fields_updateCurrentScript:
  assumes "updateCurrentScript C fd E F m = Inr m'"
  shows "input_fields m' = input_fields m"
proof -
  from assms obtain m1 where
    loop: "watch_files_loop fd E F 0 (watched_files (script m))
             (m\<lparr>trace := trace m @ [WatchPoll]\<rparr>) = Inr m1"
    and m': "m' = m1\<lparr>nextUpdate := SCRIPT_UPDATE_FREQUENCY C\<rparr>"
    by (auto simp: updateCurrentScript_def split: sum.splits)
  from input_fields_watch_files_loop [OF loop] m' show ?thesis by simp
qed

lemma input_fields_draw:
  assumes "draw C fd E F m = Inr m'"
  shows "input_fields m' = input_fields m"
proof (cases "nextUpdate m = 0")
  case True
  with assms have "updateCurrentScript C fd E F ((draw_switch E m)\<lparr>nextUpdate := - 1\<rparr>) = Inr m'"
    by (simp add: draw_polls_with_counter_minus_one)
  from input_fields_updateCurrentScript [OF this] show ?thesis
    by (simp add: input_fields_draw_switch)
next
  case False
  with assms have "m' = (draw_switch E m)\<lparr>nextUpdate := nextUpdate m - 1\<rparr>"
    by (simp add: draw_def Let_def draw_switch_counter split: if_splits)
  then show ?thesis by (simp add: input_fields_draw_switch)
qed

lemma input_fields_loadScript:
  "loadScript E F fileName m = Inr m' \<Longrightarrow> input_fields m' = input_fields m"
  by (auto simp: loadScript_def Let_def input_fields_def split: option.splits)

lemma keyPressed_fields:
  assumes "keyPressed E key m = Inr m'"
  shows "mouseIsPressed m' = mouseIsPressed m" and "lastMouseX m' = lastMouseX m"
    and "lastMouseY m' = lastMouseY m" and "lastMouseButton m' = lastMouseButton m"
    and "keyIsPressed m \<longrightarrow> keyIsPressed m'"
    and "state m = INTERPRETER_RUNNING \<longrightarrow> keyIsPressed m'"
  using assms
  by (auto simp: keyPressed_def Let_def zj_safe_funcall_def
      split: if_splits option.splits prod.splits)

lemma keyReleased_fields:
  assumes "keyReleased E key m = Inr m'"
  shows "mouseIsPressed m' = mouseIsPressed m" and "lastMouseX m' = lastMouseX m"
    and "lastMouseY m' = lastMouseY m" and "lastMouseButton m' = lastMouseButton m"
    and "state m \<noteq> INTERPRETER_RUNNING \<longrightarrow> m' = m"
  using assms
  by (auto simp: keyReleased_def Let_def zj_safe_funcall_def
      split: if_splits option.splits prod.splits)

lemma mouseDragged_fields:
  assumes "mouseDragged E x y b m = Inr m'"
  shows "mouseIsPressed m' = mouseIsPressed m" and "keyIsPressed m' = keyIsPressed m"
    and "state m \<noteq> INTERPRETER_RUNNING \<longrightarrow> m' = m"
  using assms by (auto simp: mouseDragged_def Let_def split: if_splits sum.splits)

lemma mousePressed_fields:
  assumes "mousePressed E x y b m = Inr m'"
  shows "keyIsPressed m' = keyIsPressed m" and "mouseIsPressed m \<longrightarrow> mouseIsPressed m'"
    and "state m \<noteq> INTERPRETER_RUNNING \<longrightarrow> m' = m"
  using assms by (auto simp: mousePressed_def Let_def split: if_splits sum.splits)

lemma mouseReleased_fields:
  assumes "mouseReleased E x y b m = Inr m'"
  shows "keyIsPressed m' = keyIsPressed m" and "lastMouseX m' = lastMouseX m"
    and "lastMouseY m' = lastMouseY m" and "lastMouseButton m' = lastMouseButton m"
    and "state m \<noteq> INTERPRETER_RUNNING \<longrightarrow> m' = m"
  using assms by (auto simp: mouseReleased_def Let_def split: if_splits sum.splits)

lemma step_flags:
  assumes "step C fd E ev m = Inr m'"
  shows "(releases_mouse ev m \<longrightarrow> \<not> mouseIsPressed m') \<and>
         (releases_key ev m \<longrightarrow> \<not> keyIsPressed m') \<and>
         (\<not> releases_mouse ev m \<and> mouseIsPressed m \<longrightarrow> mouseIsPressed m') \<and>
         (\<not> releases_key ev m \<and> keyIsPressed m \<longrightarrow> keyIsPressed m') \<and>
         (\<not> moves_pointer ev m \<longrightarrow>
            lastMouseX m' = lastMouseX m \<and> lastMouseY m' = lastMouseY m \<and>
            lastMouseButton m' = lastMouseButton m)"
proof (cases ev)
  case Setup
  with assms have "input_fields m' = input_fields m"
    by (auto simp: step_def input_fields_phases)
  with Setup show ?thesis
    by (simp add: input_fields_def releases_mouse_def releases_key_def moves_pointer_def)
next
  case Update
  with assms have "input_fields m' = input_fields m"
    by (auto simp: step_def input_fields_phases)
  with Update show ?thesis
    by (simp add: input_fields_def releases_mouse_def releases_key_def moves_pointer_def)
next
  case (Draw F)
  with assms have "input_fields m' = input_fields m"
    by (auto simp: step_def dest: input_fields_draw)
  with Draw show ?thesis
    by (simp add: input_fields_def releases_mouse_def releases_key_def moves_pointer_def)
next
  case ExitApp
  with assms have "input_fields m' = input_fields m"
    by (auto simp: step_def input_fields_phases)
  with ExitApp show ?thesis
    by (simp add: input_fields_def releases_mouse_def releases_key_def moves_pointer_def)
next
  case (KeyPressed key)
  with assms have "keyPressed E key m = Inr m'"
    by (simp add: step_def)
  from keyPressed_fields [OF this] KeyPressed show ?thesis
    by (simp add: releases_mouse_def releases_key_def moves_pointer_def)
next
  case (KeyReleased key)
  with assms have k: "keyReleased E key m = Inr m'"
    by (simp add: step_def)
  from keyReleased_fields [OF k] keyReleased_running [OF _ k] KeyReleased show ?thesis
    by (auto simp: releases_mouse_def releases_key_def moves_pointer_def)
next
  case (MouseMoved x y)
  with assms have "input_fields m' = input_fields m"
    by (auto simp: step_def input_fields_phases)
  with MouseMoved show ?thesis
    by (simp add: input_fields_def releases_mouse_def releases_key_def moves_pointer_def)
next
  case (MouseDragged x y b)
  with assms have d: "mouseDragged E x y b m = Inr m'"
    by (simp add: step_def)
  from mouseDragged_fields [OF d] MouseDragged show ?thesis
    by (auto simp: releases_mouse_def releases_key_def moves_pointer_def)
next
  case (MousePressed x y b)
  with assms have p: "mousePressed E x y b m = Inr m'"
    by (simp add: step_def)
  from mousePressed_fields [OF p] MousePressed show ?thesis
    by (auto simp: releases_mouse_def releases_key_def moves_pointer_def)
next
  case (MouseReleased x y b)
  with assms have r: "mouseReleased E x y b m = Inr m'"
    by (simp add: step_def)
  from mouseReleased_fields [OF r] mouseReleased_running [OF _ r] MouseReleased show ?thesis
    by (auto simp: releases_mouse_def releases_key_def moves_pointer_def)
next
  case (WindowResized w h)
  with assms have "input_fields m' = input_fields m"
    by (auto simp: step_def input_fields_phases)
  with WindowResized show ?thesis
    by (simp add: input_fields_def releases_mouse_def releases_key_def moves_pointer_def)
next
  case (Reload forced filename F)
  with assms have "input_fields m' = input_fields m"
    by (auto simp: step_def dest: input_fields_reloadScript)
  with Reload show ?thesis
    by (simp add: input_fields_def releases_mouse_def releases_key_def moves_pointer_def)
next
  case (LoadScript fileName F)
  with assms have "input_fields m' = input_fields m"
    by (auto simp: step_def dest: input_fields_loadScript)
  with LoadScript show ?thesis
    by (simp add: input_fields_def releases_mouse_def releases_key_def moves_pointer_def)
qed

lemma steps_mouse_held:
  "steps C fd E evs m = Inr m' \<Longrightarrow> mouse_undisturbed C fd E evs m \<Longrightarrow> mouseIsPressed m \<Longrightarrow>
   mouseIsPressed m' \<and> lastMouseX m' = lastMouseX m \<and> lastMouseY m' = lastMouseY m \<and>
   lastMouseButton m' = lastMouseButton m"
proof (induction evs arbitrary: m)
  case Nil
  then show ?case by simp
next
  case (Cons ev evs)
  from Cons.prems(1) obtain m1 where
    one: "step C fd E ev m = Inr m1" and rest: "steps C fd E evs m1 = Inr m'"
    by (auto split: sum.splits)
  from Cons.prems(2) one have quiet: "\<not> releases_mouse ev m" "\<not> moves_pointer ev m"
    and und: "mouse_undisturbed C fd E evs m1"
    by simp_all
  from step_flags [OF one] quiet Cons.prems(3)
  have "mouseIsPressed m1" "lastMouseX m1 = lastMouseX m" "lastMouseY m1 = lastMouseY m"
    "lastMouseButton m1 = lastMouseButton m"
    by simp_all
  with Cons.IH [OF rest und] show ?case by simp
qed

lemma steps_key_held:
  "steps C fd E evs m = Inr m' \<Longrightarrow> key_undisturbed C fd E evs m \<Longrightarrow> keyIsPressed m \<Longrightarrow>
   keyIsPressed m'"
proof (induction evs arbitrary: m)
  case Nil
  then show ?case by simp
next
  case (Cons ev evs)
  from Cons.prems(1) obtain m1 where
    one: "step C fd E ev m = Inr m1" and rest: "steps C fd E evs m1 = Inr m'"
    by (auto split: sum.splits)
  from Cons.prems(2) one have quiet: "\<not> releases_key ev m"
    and und: "key_undisturbed C fd E evs m1"
    by simp_all
  from step_flags [OF one] quiet Cons.prems(3) have "keyIsPressed m1"
    by simp
  with Cons.IH [OF rest und] show ?case by simp
qed

lemmas step_defs =
  step_def releases_mouse_def releases_key_def moves_pointer_def

subsection \<open>Failures in the update and draw phases\<close>



subsection \<open>The exit phase\<close>

text \<open>
  C10. \<^verbatim>\<open>exit\<close> invokes the exit prehooks and the exit entry point only when the state
  is Running; in every state it then invokes every exit posthook, in the order of the list.
  The theorem gives what the engine is left with, on the engine's own operation: in a
  state other than Running, the Ruby side after the call is the one that invoking the
  posthooks in order produces from the Ruby side before it, and the state is unchanged; in
  state Running the prehooks and the entry point are invoked first, and the state is Error
  exactly when the entry point failed. The log of calls says the same.
\<close>

theorem exit_posthooks_run_in_every_state:
  "(state m = INTERPRETER_RUNNING \<longrightarrow>
      (let w1 = invoke_all E (hooks (script m) exit_prehooks) (script m);
           w2 = snd (proc_call E (procs w1 exit_proc) [] w1)
       in script (exit_phase E m) = invoke_all E (hooks w2 exit_posthooks) w2 \<and>
          trace (exit_phase E m) =
            trace m @ map (\<lambda>h. ProcCall h []) (hooks (script m) exit_prehooks) @
            [ProcCall (procs w1 exit_proc) []] @
            map (\<lambda>h. ProcCall h []) (hooks w2 exit_posthooks) \<and>
          state (exit_phase E m) =
            (if fst (proc_call E (procs w1 exit_proc) [] w1)
             then INTERPRETER_ERROR else INTERPRETER_RUNNING))) \<and>
   (state m \<noteq> INTERPRETER_RUNNING \<longrightarrow>
      script (exit_phase E m) = invoke_all E (hooks (script m) exit_posthooks) (script m) \<and>
      trace (exit_phase E m) =
        trace m @ map (\<lambda>h. ProcCall h []) (hooks (script m) exit_posthooks) \<and>
      state (exit_phase E m) = state m)"
  by (simp add: exit_phase_eq Let_def script_run_hooks trace_run_hooks exit_entry_running)

theorem exit_posthooks_run_in_every_state_witness:
  "trace (exit_phase sample_engine
            (sample_machine INTERPRETER_RUNNING sample_procs sample_hooks))
     = [ProcCall (Proc 40) [], ProcCall (Proc 4) [], ProcCall (Proc 42) [], ProcCall (Proc 44) []] \<and>
   trace (exit_phase sample_engine
            (sample_machine INTERPRETER_ERROR sample_procs sample_hooks))
     = [ProcCall (Proc 42) [], ProcCall (Proc 44) []] \<and>
   trace (exit_phase sample_engine
            (sample_machine INTERPRETER_NO_SKETCH sample_procs sample_hooks))
     = [ProcCall (Proc 42) [], ProcCall (Proc 44) []] \<and>
   state (exit_phase sample_engine
            (sample_machine INTERPRETER_RUNNING sample_procs sample_hooks))
     = INTERPRETER_RUNNING \<and>
   state (exit_phase sample_engine
            (sample_machine INTERPRETER_RUNNING (sample_procs(exit_proc := Proc 7)) sample_hooks))
     = INTERPRETER_ERROR"
proof -
  let ?r = "sample_machine INTERPRETER_RUNNING sample_procs sample_hooks"
  let ?f = "sample_machine INTERPRETER_RUNNING (sample_procs(exit_proc := Proc 7)) sample_hooks"
  let ?e = "sample_machine INTERPRETER_ERROR sample_procs sample_hooks"
  let ?n = "sample_machine INTERPRETER_NO_SKETCH sample_procs sample_hooks"
  have r: "state ?r = INTERPRETER_RUNNING"
    and f: "state ?f = INTERPRETER_RUNNING"
    and e: "state ?e \<noteq> INTERPRETER_RUNNING"
    and n: "state ?n \<noteq> INTERPRETER_RUNNING"
    by (simp_all add: sample_defs)
  note cr = exit_posthooks_run_in_every_state [of ?r sample_engine, unfolded Let_def]
  note cf = exit_posthooks_run_in_every_state [of ?f sample_engine, unfolded Let_def]
  note ce = exit_posthooks_run_in_every_state [of ?e sample_engine]
  note cn = exit_posthooks_run_in_every_state [of ?n sample_engine]
  have "trace (exit_phase sample_engine ?r) =
          [ProcCall (Proc 40) [], ProcCall (Proc 4) [], ProcCall (Proc 42) [],
           ProcCall (Proc 44) []]"
    and "state (exit_phase sample_engine ?r) = INTERPRETER_RUNNING"
    using cr r by (simp_all add: sample_defs)
  moreover have "state (exit_phase sample_engine ?f) = INTERPRETER_ERROR"
    using cf f by (simp add: sample_defs)
  moreover have "trace (exit_phase sample_engine ?e) = [ProcCall (Proc 42) [], ProcCall (Proc 44) []]"
    using ce e by (simp add: sample_defs)
  moreover have "trace (exit_phase sample_engine ?n) = [ProcCall (Proc 42) [], ProcCall (Proc 44) []]"
    using cn n by (simp add: sample_defs)
  ultimately show ?thesis by simp
qed

subsection \<open>Reloading\<close>

text \<open>
  C2. A call of \<^verbatim>\<open>reloadScript\<close> whose file can be read returns, and then the state
  is Error if the evaluation of the content (the last call of \<^verbatim>\<open>live_load\<close>) reported
  an error and Running otherwise. In particular a reload in state Error whose evaluation
  succeeds ends in state Running.
\<close>

theorem reloadScript_state_follows_evaluation:
  assumes "reload_file filename m = Some f" and "file_content F f = Some content"
  shows "\<exists>m'. reloadScript E F forced filename m = Inr m' \<and>
           ruby_error m' = evaluation_failed E (forced \<or> state m = INTERPRETER_ERROR) content m \<and>
           state m' = (if ruby_error m' then INTERPRETER_ERROR else INTERPRETER_RUNNING) \<and>
           (state m = INTERPRETER_ERROR \<and>
            \<not> evaluation_failed E True content m \<longrightarrow> state m' = INTERPRETER_RUNNING)"
  by (simp add: reloadScript_readable [OF assms] zj_safe_funcall_eq evaluation_failed_def)

theorem reloadScript_state_follows_evaluation_witness:
  "reload_file None (sample_machine INTERPRETER_ERROR sample_procs sample_hooks)
     = Some ''sketch.rb'' \<and>
   file_content sample_os ''sketch.rb'' = Some ''circle 10'' \<and>
   state (sample_machine INTERPRETER_ERROR sample_procs sample_hooks) = INTERPRETER_ERROR \<and>
   \<not> evaluation_failed sample_engine True ''circle 10''
        (sample_machine INTERPRETER_ERROR sample_procs sample_hooks) \<and>
   (case reloadScript sample_engine sample_os False None
           (sample_machine INTERPRETER_ERROR sample_procs sample_hooks) of
      Inl e \<Rightarrow> None
    | Inr m' \<Rightarrow> Some (state m')) = Some INTERPRETER_RUNNING \<and>
   (case reloadScript sample_engine sample_os False (Some ''bad.rb'')
           (sample_machine INTERPRETER_RUNNING sample_procs sample_hooks) of
      Inl e \<Rightarrow> None
    | Inr m' \<Rightarrow> Some (state m')) = Some INTERPRETER_ERROR"
proof -
  let ?m = "sample_machine INTERPRETER_ERROR sample_procs sample_hooks"
  let ?r = "sample_machine INTERPRETER_RUNNING sample_procs sample_hooks"
  have f: "reload_file None ?m = Some ''sketch.rb''"
    by (simp add: reload_file_def sample_defs)
  have c: "file_content sample_os ''sketch.rb'' = Some ''circle 10''"
    by (simp add: sample_os_def)
  have s: "state ?m = INTERPRETER_ERROR"
    by (simp add: sample_defs)
  have ok: "\<not> evaluation_failed sample_engine True ''circle 10'' ?m"
    by (simp add: evaluation_failed_def before_evaluation_def evaluation_args_def
        sample_defs phase_defs)
  obtain m' where m': "reloadScript sample_engine sample_os False None ?m = Inr m'"
    and "state ?m = INTERPRETER_ERROR \<and> \<not> evaluation_failed sample_engine True ''circle 10'' ?m
           \<longrightarrow> state m' = INTERPRETER_RUNNING"
    using reloadScript_state_follows_evaluation [OF f c, of sample_engine False] by blast
  then have one: "state m' = INTERPRETER_RUNNING"
    using s ok by blast
  have f2: "reload_file (Some ''bad.rb'') ?r = Some ''bad.rb''"
    by (simp add: reload_file_def)
  have c2: "file_content sample_os ''bad.rb'' = Some ''raise''"
    by (simp add: sample_os_def)
  have bad: "evaluation_failed sample_engine (False \<or> state ?r = INTERPRETER_ERROR) ''raise'' ?r"
    by (simp add: evaluation_failed_def before_evaluation_def evaluation_args_def
        sample_defs phase_defs)
  obtain m2 where m2: "reloadScript sample_engine sample_os False (Some ''bad.rb'') ?r = Inr m2"
    and "ruby_error m2 =
           evaluation_failed sample_engine (False \<or> state ?r = INTERPRETER_ERROR) ''raise'' ?r"
    and "state m2 = (if ruby_error m2 then INTERPRETER_ERROR else INTERPRETER_RUNNING)"
    using reloadScript_state_follows_evaluation [OF f2 c2, of sample_engine False] by blast
  then have two: "state m2 = INTERPRETER_ERROR"
    using bad by simp
  show ?thesis
    using f c s ok by (simp add: m' m2 one two)
qed

text \<open>
  C3. A reload in state Error is a forced reload whatever the caller's flag: it first calls
  \<^verbatim>\<open>live_load("", true)\<close>, which resets the state the script defined, and then
  evaluates the content with the flag true. A reload in state Running with the flag false
  makes the one call that evaluates the content, with the flag false.
\<close>

theorem reloadScript_forced_when_in_error:
  assumes "reload_file filename m = Some f" and "file_content F f = Some content"
  shows "\<exists>m'. reloadScript E F forced filename m = Inr m' \<and>
           (state m = INTERPRETER_ERROR \<longrightarrow>
              trace m' = trace m @
                [Funcall rb_cObject ''live_load'' [rb_str_new2 [], Qtrue],
                 Funcall rb_cObject ''live_load'' [rb_str_new2 content, Qtrue]]) \<and>
           (state m = INTERPRETER_RUNNING \<and> \<not> forced \<longrightarrow>
              trace m' = trace m @
                [Funcall rb_cObject ''live_load'' [rb_str_new2 content, Qfalse]])"
  by (simp add: reloadScript_readable [OF assms] zj_safe_funcall_eq trace_before_evaluation
      evaluation_args_def)

theorem reloadScript_forced_when_in_error_witness:
  "(case reloadScript sample_engine sample_os False None
           (sample_machine INTERPRETER_ERROR sample_procs sample_hooks) of
      Inl e \<Rightarrow> None
    | Inr m' \<Rightarrow> Some (trace m')) =
     Some [Funcall (Class ''Object'') ''live_load'' [Str [], Qtrue],
           Funcall (Class ''Object'') ''live_load'' [Str ''circle 10'', Qtrue]] \<and>
   (case reloadScript sample_engine sample_os False None
           (sample_machine INTERPRETER_RUNNING sample_procs sample_hooks) of
      Inl e \<Rightarrow> None
    | Inr m' \<Rightarrow> Some (trace m')) =
     Some [Funcall (Class ''Object'') ''live_load'' [Str ''circle 10'', Qfalse]]"
proof -
  let ?e = "sample_machine INTERPRETER_ERROR sample_procs sample_hooks"
  let ?r = "sample_machine INTERPRETER_RUNNING sample_procs sample_hooks"
  have fe: "reload_file None ?e = Some ''sketch.rb''"
    and fr: "reload_file None ?r = Some ''sketch.rb''"
    by (simp_all add: reload_file_def sample_defs)
  have c: "file_content sample_os ''sketch.rb'' = Some ''circle 10''"
    by (simp add: sample_os_def)
  have se: "state ?e = INTERPRETER_ERROR" and sr: "state ?r = INTERPRETER_RUNNING"
    and te: "trace ?e = []" and tr: "trace ?r = []"
    by (simp_all add: sample_defs)
  obtain m1 where m1: "reloadScript sample_engine sample_os False None ?e = Inr m1"
    and "state ?e = INTERPRETER_ERROR \<longrightarrow>
           trace m1 = trace ?e @
             [Funcall rb_cObject ''live_load'' [rb_str_new2 [], Qtrue],
              Funcall rb_cObject ''live_load'' [rb_str_new2 ''circle 10'', Qtrue]]"
    using reloadScript_forced_when_in_error [OF fe c, of sample_engine False] by blast
  then have one: "trace m1 =
             [Funcall rb_cObject ''live_load'' [rb_str_new2 [], Qtrue],
              Funcall rb_cObject ''live_load'' [rb_str_new2 ''circle 10'', Qtrue]]"
    using se te by simp
  obtain m2 where m2: "reloadScript sample_engine sample_os False None ?r = Inr m2"
    and "state ?r = INTERPRETER_RUNNING \<and> \<not> False \<longrightarrow>
           trace m2 = trace ?r @
             [Funcall rb_cObject ''live_load'' [rb_str_new2 ''circle 10'', Qfalse]]"
    using reloadScript_forced_when_in_error [OF fr c, of sample_engine False] by blast
  then have two: "trace m2 =
             [Funcall rb_cObject ''live_load'' [rb_str_new2 ''circle 10'', Qfalse]]"
    using sr tr by simp
  show ?thesis
    by (simp add: m1 m2 one two rb_cObject_def rb_str_new2_def c_str_def)
qed

subsection \<open>The watch poll\<close>

text \<open>
  C4, as the code has it. With the counter between 0 and the interval \<open>K\<close>
  (\<^verbatim>\<open>SCRIPT_UPDATE_FREQUENCY\<close>) before a run of draw calls that all return, whatever the
  state and whatever fails in them: the poll fires in exactly the calls that find the
  counter at 0, that is once every \<open>K + 1\<close> calls, and after the run the counter is
  again between 0 and \<open>K\<close>. (The count of polls in \<open>n\<close> calls from a counter
  \<open>c\<close> is \<open>(n + K - c) div (K + 1)\<close>.)
\<close>

theorem watch_poll_every_K_plus_one_draws:
  assumes "draws C fd E Fs m = Inr m'"
    and "0 \<le> nextUpdate m" and "nextUpdate m \<le> SCRIPT_UPDATE_FREQUENCY C"
  shows "int (polls (trace m')) =
           int (polls (trace m)) +
           (int (length Fs) + SCRIPT_UPDATE_FREQUENCY C - nextUpdate m)
             div (SCRIPT_UPDATE_FREQUENCY C + 1) \<and>
         0 \<le> nextUpdate m' \<and> nextUpdate m' \<le> SCRIPT_UPDATE_FREQUENCY C"
  using assms
proof (induction Fs arbitrary: m)
  case Nil
  then show ?case by simp
next
  case (Cons F Fs)
  let ?K = "SCRIPT_UPDATE_FREQUENCY C"
  from Cons.prems(1) obtain m1 where
    one: "draw C fd E F m = Inr m1" and rest: "draws C fd E Fs m1 = Inr m'"
    by (auto split: sum.splits)
  have c1: "nextUpdate m1 = (if nextUpdate m = 0 then ?K else nextUpdate m - 1)"
    and p1: "polls (trace m1) = polls (trace m) + (if nextUpdate m = 0 then 1 else 0)"
    using draw_counter [OF one] by simp_all
  have bounds: "0 \<le> nextUpdate m1" "nextUpdate m1 \<le> ?K"
    using c1 Cons.prems(2,3) by (auto split: if_splits)
  from Cons.IH [OF rest bounds]
  have ih: "int (polls (trace m')) =
              int (polls (trace m1)) + (int (length Fs) + ?K - nextUpdate m1) div (?K + 1)"
    and b': "0 \<le> nextUpdate m'" "nextUpdate m' \<le> ?K"
    by simp_all
  have "(int (length Fs) + 1 + ?K - nextUpdate m) div (?K + 1) =
        (if nextUpdate m = 0 then 1 else 0) +
        (int (length Fs) + ?K - (if nextUpdate m = 0 then ?K else nextUpdate m - 1)) div (?K + 1)"
    using Cons.prems(2,3) by (intro poll_count_step) simp_all
  with ih c1 p1 b' show ?case
    by (simp add: algebra_simps split: if_splits)
qed

theorem watch_poll_every_K_plus_one_draws_witness:
  "0 \<le> nextUpdate (sample_watching INTERPRETER_RUNNING 0) \<and>
   nextUpdate (sample_watching INTERPRETER_RUNNING 0) \<le> SCRIPT_UPDATE_FREQUENCY sample_config \<and>
   (case draws sample_config False sample_engine [sample_os, sample_os, sample_os]
           (sample_watching INTERPRETER_RUNNING 0) of
      Inl e \<Rightarrow> None
    | Inr m' \<Rightarrow> Some (polls (trace m'), nextUpdate m' \<in> {0..2})) = Some (1, True)"
proof -
  let ?m = "sample_watching INTERPRETER_RUNNING 0"
  have lo: "0 \<le> nextUpdate ?m" and hi: "nextUpdate ?m \<le> SCRIPT_UPDATE_FREQUENCY sample_config"
    and c: "nextUpdate ?m = 2" and k: "SCRIPT_UPDATE_FREQUENCY sample_config = 2"
    and t: "trace ?m = []"
    by (simp_all add: sample_watching_def sample_defs)
  obtain m' where
    run: "draws sample_config False sample_engine [sample_os, sample_os, sample_os] ?m = Inr m'"
    using sample_draws_3 by blast
  from watch_poll_every_K_plus_one_draws [OF run lo hi]
  have "int (polls (trace m')) = 1" and "0 \<le> nextUpdate m'" and "nextUpdate m' \<le> 2"
    by (simp_all add: c k t)
  then show ?thesis unfolding run using lo hi by simp
qed

text \<open>
  The claim as stated fails: with the interval 2, two draw calls from a fresh counter
  fire no poll.
\<close>

theorem watch_poll_every_K_draws_counterexample:
  "SCRIPT_UPDATE_FREQUENCY sample_config = 2 \<and>
   nextUpdate (sample_watching INTERPRETER_RUNNING 0) = 2 \<and>
   (case draws sample_config False sample_engine [sample_os, sample_os]
           (sample_watching INTERPRETER_RUNNING 0) of
      Inl e \<Rightarrow> None
    | Inr m' \<Rightarrow> Some (polls (trace m'))) = Some 0"
  by (simp add: poll_defs reload_defs sample_defs phase_defs)

text \<open>
  C5. A poll examines the entries of the watch list, as read at its start, in index
  order. For the entry at index \<open>j\<close>, reached with the machine \<open>m\<close>, whose file
  (the entry up to its first NUL byte) \<^verbatim>\<open>stat\<close> can read: when the modification time is
  not greater than the shared timestamp, the machine is unchanged; when it is greater, the
  timestamp becomes that time, the engine loads the file when \<open>j\<close> is not 0 (and an
  exception of that load ends the process), and then the primary script
  (\<^verbatim>\<open>scriptName\<close>) is read and evaluated by the engine, with a reset first when the
  reload is forced, and the state follows that evaluation.
\<close>

theorem watch_poll_newer_file_reloads:
  assumes "j < length (watched_files (script mp))"
    and "watch_files_loop fd E F 0 (take j (watched_files (script mp)))
           (mp\<lparr>trace := trace mp @ [WatchPoll]\<rparr>) = Inr m"
    and "watched_files (script mp) ! j = Str s"
    and "stat_mtime F (c_str s) = Some mtime"
  shows
    "updateCurrentScript C fd E F mp =
       (case watch_files_loop fd E F 0 (watched_files (script mp))
               (mp\<lparr>trace := trace mp @ [WatchPoll]\<rparr>) of
          Inl e \<Rightarrow> Inl e
        | Inr ml \<Rightarrow> Inr (ml\<lparr>nextUpdate := SCRIPT_UPDATE_FREQUENCY C\<rparr>)) \<and>
     (\<not> mtime > scriptModifiedTime m \<longrightarrow>
        watch_files_loop fd E F 0 (take (Suc j) (watched_files (script mp)))
          (mp\<lparr>trace := trace mp @ [WatchPoll]\<rparr>) = Inr m) \<and>
     (mtime > scriptModifiedTime m \<longrightarrow>
        (0 < j \<and>
         kernel_load E (c_str s) (script (advance_timestamp (c_str s) mtime m)) = None \<longrightarrow>
           watch_files_loop fd E F 0 (take (Suc j) (watched_files (script mp)))
             (mp\<lparr>trace := trace mp @ [WatchPoll]\<rparr>) = Inl UncaughtException) \<and>
        (\<forall>m'. watch_files_loop fd E F 0 (take (Suc j) (watched_files (script mp)))
                (mp\<lparr>trace := trace mp @ [WatchPoll]\<rparr>) = Inr m' \<longrightarrow>
           scriptModifiedTime m' = mtime \<and>
           (\<exists>w primary content.
              (if 0 < j
               then kernel_load E (c_str s) (script (advance_timestamp (c_str s) mtime m))
               else Some (script (advance_timestamp (c_str s) mtime m))) = Some w \<and>
              scriptName m = Some primary \<and> file_content F primary = Some content \<and>
              (let forced' = (fd \<or> state m = INTERPRETER_ERROR);
                   wl = script (logConsoleText ''$stdout''
                                  (LogReading (Some primary) (int (length content)))
                                  (m\<lparr>script := w\<rparr>));
                   wp = (if forced'
                         then snd (funcall E rb_cObject ''live_load''
                                     [rb_str_new2 [], Qtrue] wl)
                         else wl);
                   r = funcall E rb_cObject ''live_load'' (evaluation_args forced' content) wp
               in script m' = snd r \<and>
                  state m' = (if fst (fst r) then INTERPRETER_ERROR
                              else INTERPRETER_RUNNING) \<and>
                  trace m' =
                    trace m @
                    (if 0 < j then [KernelLoad (c_str s)] else []) @
                    (if forced'
                     then [Funcall rb_cObject ''live_load'' [rb_str_new2 [], Qtrue]]
                     else []) @
                    [Funcall rb_cObject ''live_load'' (evaluation_args forced' content)]))))"
proof (intro conjI impI allI)
  let ?vs = "watched_files (script mp)"
  let ?m0 = "mp\<lparr>trace := trace mp @ [WatchPoll]\<rparr>"
  let ?adv = "advance_timestamp (c_str s) mtime m"
  have pos: "watch_files_loop fd E F 0 (take (Suc j) ?vs) ?m0 = watch_file fd E F j (Str s) m"
    using watch_files_loop_position [OF assms(1,2)] assms(3) by simp
  show "updateCurrentScript C fd E F mp =
       (case watch_files_loop fd E F 0 ?vs ?m0 of
          Inl e \<Rightarrow> Inl e
        | Inr ml \<Rightarrow> Inr (ml\<lparr>nextUpdate := SCRIPT_UPDATE_FREQUENCY C\<rparr>))"
    by (simp add: updateCurrentScript_def)
  {
    assume "\<not> mtime > scriptModifiedTime m"
    then show "watch_files_loop fd E F 0 (take (Suc j) ?vs) ?m0 = Inr m"
      using assms(4) by (simp add: pos watch_file_Str)
  }
  assume newer: "mtime > scriptModifiedTime m"
  have body: "watch_file fd E F j (Str s) m =
          (case (if j > 0 then rb_load E (c_str s) ?adv else Inr ?adv) of
             Inl e \<Rightarrow> Inl e
           | Inr m3 \<Rightarrow> reloadScript E F fd None m3)"
    using assms(4) newer by (simp add: watch_file_Str)
  {
    assume "0 < j \<and> kernel_load E (c_str s) (script ?adv) = None"
    then show "watch_files_loop fd E F 0 (take (Suc j) ?vs) ?m0 = Inl UncaughtException"
      by (simp add: pos body rb_load_def)
  }
  fix m'
  assume ret: "watch_files_loop fd E F 0 (take (Suc j) ?vs) ?m0 = Inr m'"
  then obtain m3 where
    m3: "(if j > 0 then rb_load E (c_str s) ?adv else Inr ?adv) = Inr m3"
    and r: "reloadScript E F fd None m3 = Inr m'"
    unfolding pos body by (auto split: sum.splits)
  define w where "w = script m3"
  have load: "(if 0 < j then kernel_load E (c_str s) (script ?adv) else Some (script ?adv)) = Some w"
    and shape: "m3 = ?adv\<lparr>script := w,
                          trace := trace m @ (if 0 < j then [KernelLoad (c_str s)] else [])\<rparr>"
    using m3 rb_load_Inr [of E "c_str s" ?adv m3]
    by (auto simp: w_def split: if_splits)
  from reloadScript_result [OF r] obtain primary content where
    n3: "scriptName m3 = Some primary" and c: "file_content F primary = Some content"
    and res: "(let forced' = (fd \<or> state m3 = INTERPRETER_ERROR);
                wl = script (logConsoleText ''$stdout''
                               (LogReading (Some primary) (int (length content))) m3);
                wp = (if forced'
                      then snd (funcall E rb_cObject ''live_load'' [rb_str_new2 [], Qtrue] wl)
                      else wl);
                r = funcall E rb_cObject ''live_load'' (evaluation_args forced' content) wp
            in script m' = snd r \<and>
               state m' = (if fst (fst r) then INTERPRETER_ERROR else INTERPRETER_RUNNING) \<and>
               trace m' =
                 trace m3 @
                 (if forced' then [Funcall rb_cObject ''live_load'' [rb_str_new2 [], Qtrue]]
                  else []) @
                 [Funcall rb_cObject ''live_load'' (evaluation_args forced' content)] \<and>
               scriptModifiedTime m' = scriptModifiedTime m3)"
    by blast
  have f3: "state m3 = state m" "scriptName m3 = scriptName m" "scriptModifiedTime m3 = mtime"
    "trace m3 = trace m @ (if 0 < j then [KernelLoad (c_str s)] else [])" "script m3 = w"
    by (subst shape, simp)+
  show "scriptModifiedTime m' = mtime"
    using res f3 by (simp add: Let_def)
  have n: "scriptName m = Some primary"
    using n3 f3 by simp
  have "(let forced' = (fd \<or> state m = INTERPRETER_ERROR);
                   wl = script (logConsoleText ''$stdout''
                                  (LogReading (Some primary) (int (length content)))
                                  (m\<lparr>script := w\<rparr>));
                   wp = (if forced'
                         then snd (funcall E rb_cObject ''live_load''
                                     [rb_str_new2 [], Qtrue] wl)
                         else wl);
                   r = funcall E rb_cObject ''live_load'' (evaluation_args forced' content) wp
               in script m' = snd r \<and>
                  state m' = (if fst (fst r) then INTERPRETER_ERROR
                              else INTERPRETER_RUNNING) \<and>
                  trace m' =
                    trace m @
                    (if 0 < j then [KernelLoad (c_str s)] else []) @
                    (if forced'
                     then [Funcall rb_cObject ''live_load'' [rb_str_new2 [], Qtrue]]
                     else []) @
                    [Funcall rb_cObject ''live_load'' (evaluation_args forced' content)])"
    using res f3 by (simp add: Let_def script_logConsoleText)
  with load n c show "\<exists>w primary content.
              (if 0 < j
               then kernel_load E (c_str s) (script (advance_timestamp (c_str s) mtime m))
               else Some (script (advance_timestamp (c_str s) mtime m))) = Some w \<and>
              scriptName m = Some primary \<and> file_content F primary = Some content \<and>
              (let forced' = (fd \<or> state m = INTERPRETER_ERROR);
                   wl = script (logConsoleText ''$stdout''
                                  (LogReading (Some primary) (int (length content)))
                                  (m\<lparr>script := w\<rparr>));
                   wp = (if forced'
                         then snd (funcall E rb_cObject ''live_load''
                                     [rb_str_new2 [], Qtrue] wl)
                         else wl);
                   r = funcall E rb_cObject ''live_load'' (evaluation_args forced' content) wp
               in script m' = snd r \<and>
                  state m' = (if fst (fst r) then INTERPRETER_ERROR
                              else INTERPRETER_RUNNING) \<and>
                  trace m' =
                    trace m @
                    (if 0 < j then [KernelLoad (c_str s)] else []) @
                    (if forced'
                     then [Funcall rb_cObject ''live_load'' [rb_str_new2 [], Qtrue]]
                     else []) @
                    [Funcall rb_cObject ''live_load'' (evaluation_args forced' content)])"
    by blast
qed

theorem watch_poll_newer_file_reloads_witness:
  "(case updateCurrentScript sample_config False sample_engine sample_os
           (sample_watching INTERPRETER_RUNNING 5) of
      Inl e \<Rightarrow> None
    | Inr m' \<Rightarrow> Some (scriptModifiedTime m', state m', trace m', nextUpdate m')) =
     Some (7, INTERPRETER_RUNNING,
           [WatchPoll, KernelLoad ''lib.rb'',
            Funcall (Class ''Object'') ''live_load'' [Str ''circle 10'', Qfalse]], 2) \<and>
   updateCurrentScript sample_config False sample_engine sample_os
     (sample_watching INTERPRETER_RUNNING 9) =
     Inr ((sample_watching INTERPRETER_RUNNING 9)\<lparr>nextUpdate := 2, trace := [WatchPoll]\<rparr>) \<and>
   updateCurrentScript sample_config False (sample_engine\<lparr>kernel_load := \<lambda>path w. None\<rparr>)
     sample_os (sample_watching INTERPRETER_RUNNING 5) = Inl UncaughtException"
proof -
  let ?mp = "sample_watching INTERPRETER_RUNNING 5"
  let ?m0 = "?mp\<lparr>trace := trace ?mp @ [WatchPoll]\<rparr>"
  let ?np = "sample_watching INTERPRETER_RUNNING 9"
  let ?n0 = "?np\<lparr>trace := trace ?np @ [WatchPoll]\<rparr>"
  let ?E' = "sample_engine\<lparr>kernel_load := \<lambda>path w. None\<rparr>"
  have vs: "watched_files (script ?mp) = [Str ''sketch.rb'', Str ''lib.rb'']"
    "watched_files (script ?np) = [Str ''sketch.rb'', Str ''lib.rb'']"
    by (simp_all add: sample_watching_def sample_defs)
  have len: "(1::nat) < length (watched_files (script ?mp))"
    "(1::nat) < length (watched_files (script ?np))"
    and entry: "watched_files (script ?mp) ! 1 = Str ''lib.rb''"
    "watched_files (script ?np) ! 1 = Str ''lib.rb''"
    by (simp_all add: vs)
  have st: "stat_mtime sample_os (c_str ''lib.rb'') = Some 7"
    by (simp add: sample_os_def c_str_def)
  have first: "watch_files_loop False sample_engine sample_os 0
                 (take 1 (watched_files (script ?mp))) ?m0 = Inr ?m0"
    and first': "watch_files_loop False ?E' sample_os 0
                 (take 1 (watched_files (script ?mp))) ?m0 = Inr ?m0"
    and firstn: "watch_files_loop False sample_engine sample_os 0
                 (take 1 (watched_files (script ?np))) ?n0 = Inr ?n0"
    by (simp_all add: vs watch_file_Str c_str_def sample_os_def sample_watching_def sample_defs)
  have newer: "7 > scriptModifiedTime ?m0" and older: "\<not> 7 > scriptModifiedTime ?n0"
    and fields: "state ?m0 = INTERPRETER_RUNNING" "scriptName ?m0 = Some ''sketch.rb''"
      "trace ?m0 = [WatchPoll]"
    by (simp_all add: sample_watching_def sample_defs)
  have all: "take (Suc 1) (watched_files (script ?mp)) = watched_files (script ?mp)"
    "take (Suc 1) (watched_files (script ?np)) = watched_files (script ?np)"
    by (simp_all add: vs)
  note claim = watch_poll_newer_file_reloads
    [OF len(1) first entry(1) st, of sample_config, unfolded all]
  note claim' = watch_poll_newer_file_reloads
    [OF len(1) first' entry(1) st, of sample_config, unfolded all]
  note claimn = watch_poll_newer_file_reloads
    [OF len(2) firstn entry(2) st, of sample_config, unfolded all]
  have "\<exists>m'. watch_files_loop False sample_engine sample_os 0
                (watched_files (script ?mp)) ?m0 = Inr m'"
    by (simp add: vs poll_defs reload_defs sample_defs phase_defs)
  then obtain m' where
    ret: "watch_files_loop False sample_engine sample_os 0
            (watched_files (script ?mp)) ?m0 = Inr m'"
    by blast
  from claim newer ret obtain w primary content where
    time: "scriptModifiedTime m' = 7"
    and prim: "scriptName ?m0 = Some primary"
    and cont: "file_content sample_os primary = Some content"
    and res: "(let forced' = (False \<or> state ?m0 = INTERPRETER_ERROR);
                   wl = script (logConsoleText ''$stdout''
                                  (LogReading (Some primary) (int (length content)))
                                  (?m0\<lparr>script := w\<rparr>));
                   wp = (if forced'
                         then snd (funcall sample_engine rb_cObject ''live_load''
                                     [rb_str_new2 [], Qtrue] wl)
                         else wl);
                   r = funcall sample_engine rb_cObject ''live_load''
                         (evaluation_args forced' content) wp
               in script m' = snd r \<and>
                  state m' = (if fst (fst r) then INTERPRETER_ERROR
                              else INTERPRETER_RUNNING) \<and>
                  trace m' =
                    trace ?m0 @
                    (if 0 < (1::nat) then [KernelLoad (c_str ''lib.rb'')] else []) @
                    (if forced'
                     then [Funcall rb_cObject ''live_load'' [rb_str_new2 [], Qtrue]]
                     else []) @
                    [Funcall rb_cObject ''live_load'' (evaluation_args forced' content)])"
    by blast
  have "primary = ''sketch.rb''"
    using prim fields by simp
  then have content: "content = ''circle 10''"
    using cont by (simp add: sample_os_def)
  have one: "state m' = INTERPRETER_RUNNING"
    "trace m' = [WatchPoll, KernelLoad ''lib.rb'',
                 Funcall (Class ''Object'') ''live_load'' [Str ''circle 10'', Qfalse]]"
    using res
    by (simp_all add: Let_def content fields evaluation_args_def rb_cObject_def rb_str_new2_def
        c_str_def sample_engine_def)
  have poll: "updateCurrentScript sample_config False sample_engine sample_os ?mp =
                Inr (m'\<lparr>nextUpdate := SCRIPT_UPDATE_FREQUENCY sample_config\<rparr>)"
    using claim by (simp add: ret)
  have two: "updateCurrentScript sample_config False sample_engine sample_os ?np =
               Inr (?n0\<lparr>nextUpdate := SCRIPT_UPDATE_FREQUENCY sample_config\<rparr>)"
    using claimn older by simp
  have none: "kernel_load ?E' (c_str ''lib.rb'')
                (script (advance_timestamp (c_str ''lib.rb'') 7 ?m0)) = None"
    by simp
  have three: "updateCurrentScript sample_config False ?E' sample_os ?mp = Inl UncaughtException"
    using claim' newer none by simp
  have n0: "?n0\<lparr>nextUpdate := SCRIPT_UPDATE_FREQUENCY sample_config\<rparr> =
            ?np\<lparr>nextUpdate := 2, trace := [WatchPoll]\<rparr>"
    by (simp add: sample_watching_def sample_defs)
  show ?thesis
    unfolding poll two three n0
    by (simp add: time one sample_config_def)
qed

subsection \<open>Loading and initialisation\<close>

text \<open>
  C7, as the code has it. \<^verbatim>\<open>loadScript\<close> of an accessible file puts the data path of
  the file in front of the watch list, whatever the list holds, so the list grows by one
  entry with every call; it is the load path that is deduplicated.
\<close>

theorem loadScript_always_prepends_to_watch_list:
  assumes "stat_mtime F fileName = Some t"
  shows "\<exists>m'. loadScript E F fileName m = Inr m' \<and>
           watched_files (script m') =
             rb_str_new2 (zj_to_data_path E (data_path_set F fileName (script m)) fileName)
             # watched_files (script m) \<and>
           distinct (load_path (script m'))"
  by (simp add: loadScript_accessible [OF assms] data_path_set_def Let_def distinct_uniq)

theorem loadScript_always_prepends_to_watch_list_witness:
  "stat_mtime sample_os ''sketch.rb'' = Some 5 \<and>
   (case loadScript sample_engine sample_os ''sketch.rb''
           (sample_machine INTERPRETER_NO_SKETCH sample_procs sample_hooks) of
      Inl e \<Rightarrow> None
    | Inr m' \<Rightarrow> Some (watched_files (script m'), load_path (script m'))) =
     Some ([Str ''sketch.rb''], [Str ''/home''])"
proof -
  let ?m = "sample_machine INTERPRETER_NO_SKETCH sample_procs sample_hooks"
  have st: "stat_mtime sample_os ''sketch.rb'' = Some 5"
    by (simp add: sample_os_def)
  from loadScript_always_prepends_to_watch_list [OF st, of sample_engine ?m]
  obtain m' where ret: "loadScript sample_engine sample_os ''sketch.rb'' ?m = Inr m'"
    and w: "watched_files (script m') =
             rb_str_new2 (zj_to_data_path sample_engine
                            (data_path_set sample_os ''sketch.rb'' (script ?m)) ''sketch.rb'')
             # watched_files (script ?m)"
    by blast
  have "watched_files (script m') = [Str ''sketch.rb'']"
    using w by (simp add: sample_defs rb_str_new2_def c_str_def)
  moreover have "load_path (script m') = [Str ''/home'']"
    using ret by (auto simp: loadScript_def sample_defs sample_os_def Let_def uniq_def
        rb_str_new2_def c_str_def)
  ultimately show ?thesis unfolding ret using st by simp
qed

text \<open>
  The claim as stated fails: loading the same file twice leaves two entries for it.
\<close>

theorem register_idempotent_counterexample:
  "(case loadScript sample_engine sample_os ''sketch.rb''
           (sample_machine INTERPRETER_NO_SKETCH sample_procs sample_hooks) of
      Inl e \<Rightarrow> None
    | Inr m1 \<Rightarrow>
        (case loadScript sample_engine sample_os ''sketch.rb'' m1 of
           Inl e \<Rightarrow> None
         | Inr m2 \<Rightarrow> Some (watched_files (script m1), watched_files (script m2)))) =
     Some ([Str ''sketch.rb''], [Str ''sketch.rb'', Str ''sketch.rb''])"
  by (simp add: loadScript_def sample_defs sample_os_def Let_def uniq_def
      rb_str_new2_def c_str_def)

text \<open>
  C8, as the code has it. The first part of \<^verbatim>\<open>initialize\<close> appends the entries of
  \<^verbatim>\<open>ZAJAL_PATH\<close>, in the order listed, to the end of the load path, and the two
  default entries after them. With no variable and the defaults compiled in it returns.
  When the resulting load path is empty the process exits with code 2, where an
  inaccessible script exits with code 1.
\<close>

theorem initialize_appends_zajal_path:
  "(load_path (script m) @ zajal_path_entries env @ default_entries C \<noteq> [] \<longrightarrow>
      (\<exists>m'. initialize_load_path C env m = Inr m' \<and>
            load_path (script m') =
              load_path (script m) @ zajal_path_entries env @ default_entries C)) \<and>
   (load_path (script m) @ zajal_path_entries env @ default_entries C = [] \<longrightarrow>
      initialize_load_path C env m = Inl (Exit 2 NoLoadPathSet) \<and>
      initialize C E env m = Inl (Exit 2 NoLoadPathSet)) \<and>
   (\<not> EMPTY_LOADPATH C \<longrightarrow> (\<exists>m'. initialize_load_path C None m = Inr m')) \<and>
   (stat_mtime F fileName = None \<longrightarrow>
      loadScript E F fileName m = Inl (Exit 1 (CouldNotAccess fileName)))"
proof (intro conjI impI)
  assume "load_path (script m) @ zajal_path_entries env @ default_entries C \<noteq> []"
  then show "\<exists>m'. initialize_load_path C env m = Inr m' \<and>
            load_path (script m') =
              load_path (script m) @ zajal_path_entries env @ default_entries C"
    using initialize_load_path_eq [of m env C] by auto
next
  assume e: "load_path (script m) @ zajal_path_entries env @ default_entries C = []"
  then show i: "initialize_load_path C env m = Inl (Exit 2 NoLoadPathSet)"
    using initialize_load_path_eq [of m env C] by auto
  show "initialize C E env m = Inl (Exit 2 NoLoadPathSet)"
    by (simp add: initialize_def i)
next
  assume "\<not> EMPTY_LOADPATH C"
  then have "load_path (script m) @ zajal_path_entries None @ default_entries C \<noteq> []"
    by (simp add: default_entries_def)
  then show "\<exists>m'. initialize_load_path C None m = Inr m'"
    using initialize_load_path_eq [of m None C] by auto
next
  assume "stat_mtime F fileName = None"
  then show "loadScript E F fileName m = Inl (Exit 1 (CouldNotAccess fileName))"
    by (simp add: loadScript_def)
qed

theorem initialize_appends_zajal_path_witness:
  "load_path (script (sample_with_load_path [Str ''/cli''])) @
     zajal_path_entries (Some ''/a:/b'') @ default_entries sample_config \<noteq> [] \<and>
   (case initialize_load_path sample_config (Some ''/a:/b'')
           (sample_with_load_path [Str ''/cli'']) of
      Inl e \<Rightarrow> None
    | Inr m' \<Rightarrow> Some (load_path (script m'))) =
     Some [Str ''/cli'', Str ''/a'', Str ''/b'', Str ''/lib/zajal'', Str ''/lib/ruby''] \<and>
   load_path (script (sample_with_load_path [])) @
     zajal_path_entries None @ default_entries (sample_config\<lparr>EMPTY_LOADPATH := True\<rparr>) = [] \<and>
   initialize (sample_config\<lparr>EMPTY_LOADPATH := True\<rparr>) sample_engine None
     (sample_with_load_path []) = Inl (Exit 2 NoLoadPathSet) \<and>
   stat_mtime sample_os ''missing.rb'' = None \<and>
   loadScript sample_engine sample_os ''missing.rb'' (sample_with_load_path [])
     = Inl (Exit 1 (CouldNotAccess ''missing.rb''))"
proof -
  let ?m = "sample_with_load_path [Str ''/cli'']"
  let ?e = "sample_with_load_path []"
  let ?C = "sample_config\<lparr>EMPTY_LOADPATH := True\<rparr>"
  have entries: "zajal_path_entries (Some ''/a:/b'') = [Str ''/a'', Str ''/b'']"
    by (simp add: zajal_path_entries_def rb_str_split_def c_str_def)
  have defaults: "default_entries sample_config = [Str ''/lib/zajal'', Str ''/lib/ruby'']"
    by (simp add: default_entries_def sample_config_def rb_str_new2_def c_str_def)
  have lp: "load_path (script ?m) = [Str ''/cli'']" and lpe: "load_path (script ?e) = []"
    by (simp_all add: sample_with_load_path_def sample_defs)
  have ne: "load_path (script ?m) @ zajal_path_entries (Some ''/a:/b'') @
              default_entries sample_config \<noteq> []"
    by (simp add: lp)
  have em: "load_path (script ?e) @ zajal_path_entries None @ default_entries ?C = []"
    by (simp add: lpe zajal_path_entries_def default_entries_def)
  have missing: "stat_mtime sample_os ''missing.rb'' = None"
    by (simp add: sample_os_def)
  from initialize_appends_zajal_path
         [where m = ?m and env = "Some ''/a:/b''" and C = sample_config] ne
  obtain m' where "initialize_load_path sample_config (Some ''/a:/b'') ?m = Inr m'"
    and "load_path (script m') =
           load_path (script ?m) @ zajal_path_entries (Some ''/a:/b'') @
           default_entries sample_config"
    by blast
  then have one: "(case initialize_load_path sample_config (Some ''/a:/b'') ?m of
      Inl e \<Rightarrow> None
    | Inr m' \<Rightarrow> Some (load_path (script m'))) =
     Some [Str ''/cli'', Str ''/a'', Str ''/b'', Str ''/lib/zajal'', Str ''/lib/ruby'']"
    by (simp add: lp entries defaults)
  have two: "initialize ?C sample_engine None ?e = Inl (Exit 2 NoLoadPathSet)"
    using initialize_appends_zajal_path
            [where m = ?e and env = None and C = ?C and E = sample_engine] em by blast
  have three: "loadScript sample_engine sample_os ''missing.rb'' ?e
     = Inl (Exit 1 (CouldNotAccess ''missing.rb''))"
    using initialize_appends_zajal_path
            [where F = sample_os and fileName = "''missing.rb''" and E = sample_engine
               and m = ?e]
      missing by blast
  show ?thesis using ne one em two missing three by blast
qed

text \<open>
  The claim as stated fails: the entries of the variable come after an entry that is
  already on the load path.
\<close>

theorem zajal_path_prepended_counterexample:
  "(case initialize_load_path sample_config (Some ''/a:/b'')
           (sample_with_load_path [Str ''/cli'']) of
      Inl e \<Rightarrow> None
    | Inr m' \<Rightarrow> Some (load_path (script m'))) =
     Some [Str ''/cli'', Str ''/a'', Str ''/b'', Str ''/lib/zajal'', Str ''/lib/ruby'']"
  by (simp add: initialize_load_path_def sample_with_load_path_def sample_defs Let_def
      rb_str_split_def c_str_def rb_str_new2_def push_load_path_def logConsoleText_def)

subsection \<open>The pressed flags across an error\<close>

text \<open>
  C9. Of all the inputs (the phases, the handlers, a reload, a load), only a release that
  arrives while the state is Running clears \<^verbatim>\<open>mouseIsPressed\<close> or
  \<^verbatim>\<open>keyIsPressed\<close>: a release in any other state changes nothing, and every other
  input, failing or not, keeps a flag that is set; the pointer fields change only in a press
  or drag that arrives while Running. So after a press while Running, through any run of
  inputs in which no release, press or drag arrives while the state is Running (a failure
  that brings the state to Error, releases during the Error period, failing and successful
  reloads), the flag stays set; and when that run ends in state Running, the draw phase
  invokes the mouse-press handler with the position and button of the press. The same holds
  for \<^verbatim>\<open>keyIsPressed\<close> after a key press.
\<close>

theorem pressed_flags_survive_error_period:
  "(step C fd E ev m = Inr m' \<longrightarrow>
      (releases_mouse ev m \<longrightarrow> \<not> mouseIsPressed m') \<and>
      (releases_key ev m \<longrightarrow> \<not> keyIsPressed m') \<and>
      (\<not> releases_mouse ev m \<and> mouseIsPressed m \<longrightarrow> mouseIsPressed m') \<and>
      (\<not> releases_key ev m \<and> keyIsPressed m \<longrightarrow> keyIsPressed m') \<and>
      (\<not> moves_pointer ev m \<longrightarrow>
         lastMouseX m' = lastMouseX m \<and> lastMouseY m' = lastMouseY m \<and>
         lastMouseButton m' = lastMouseButton m)) \<and>
   (state m \<noteq> INTERPRETER_RUNNING \<longrightarrow>
      mouseReleased E x y b m = Inr m \<and> keyReleased E k m = Inr m) \<and>
   (state m0 = INTERPRETER_RUNNING \<and> mousePressed E x y b m0 = Inr m1 \<and>
    steps C fd E evs m1 = Inr m2 \<and> mouse_undisturbed C fd E evs m1 \<and>
    state m2 = INTERPRETER_RUNNING \<longrightarrow>
      mouseIsPressed m1 \<and> mouseIsPressed m2 \<and>
      (\<exists>button. zj_button_to_symbol b = Inr button \<and>
         trace (draw_switch E m2) =
           trace (draw_posthooks_done E m2) @
           [ProcCall (procs (script (draw_posthooks_done E m2)) mouse_pressed_proc)
              [Fixnum x, Fixnum y, button]] \<and>
         script (draw_switch E m2) =
           snd (proc_call E (procs (script (draw_posthooks_done E m2)) mouse_pressed_proc)
                  [Fixnum x, Fixnum y, button] (script (draw_posthooks_done E m2))) \<and>
         ruby_error (draw_switch E m2) =
           fst (proc_call E (procs (script (draw_posthooks_done E m2)) mouse_pressed_proc)
                  [Fixnum x, Fixnum y, button] (script (draw_posthooks_done E m2))))) \<and>
   (state k0 = INTERPRETER_RUNNING \<and> keyPressed E k k0 = Inr k1 \<and>
    steps C fd E kevs k1 = Inr k2 \<and> key_undisturbed C fd E kevs k1 \<longrightarrow>
      keyIsPressed k1 \<and> keyIsPressed k2)"
proof (intro conjI)
  show "step C fd E ev m = Inr m' \<longrightarrow>
      (releases_mouse ev m \<longrightarrow> \<not> mouseIsPressed m') \<and>
      (releases_key ev m \<longrightarrow> \<not> keyIsPressed m') \<and>
      (\<not> releases_mouse ev m \<and> mouseIsPressed m \<longrightarrow> mouseIsPressed m') \<and>
      (\<not> releases_key ev m \<and> keyIsPressed m \<longrightarrow> keyIsPressed m') \<and>
      (\<not> moves_pointer ev m \<longrightarrow>
         lastMouseX m' = lastMouseX m \<and> lastMouseY m' = lastMouseY m \<and>
         lastMouseButton m' = lastMouseButton m)"
    using step_flags by blast
next
  show "state m \<noteq> INTERPRETER_RUNNING \<longrightarrow>
      mouseReleased E x y b m = Inr m \<and> keyReleased E k m = Inr m"
    by (simp add: mouseReleased_def keyReleased_def)
next
  show "state m0 = INTERPRETER_RUNNING \<and> mousePressed E x y b m0 = Inr m1 \<and>
    steps C fd E evs m1 = Inr m2 \<and> mouse_undisturbed C fd E evs m1 \<and>
    state m2 = INTERPRETER_RUNNING \<longrightarrow>
      mouseIsPressed m1 \<and> mouseIsPressed m2 \<and>
      (\<exists>button. zj_button_to_symbol b = Inr button \<and>
         trace (draw_switch E m2) =
           trace (draw_posthooks_done E m2) @
           [ProcCall (procs (script (draw_posthooks_done E m2)) mouse_pressed_proc)
              [Fixnum x, Fixnum y, button]] \<and>
         script (draw_switch E m2) =
           snd (proc_call E (procs (script (draw_posthooks_done E m2)) mouse_pressed_proc)
                  [Fixnum x, Fixnum y, button] (script (draw_posthooks_done E m2))) \<and>
         ruby_error (draw_switch E m2) =
           fst (proc_call E (procs (script (draw_posthooks_done E m2)) mouse_pressed_proc)
                  [Fixnum x, Fixnum y, button] (script (draw_posthooks_done E m2))))"
  proof
    assume a: "state m0 = INTERPRETER_RUNNING \<and> mousePressed E x y b m0 = Inr m1 \<and>
      steps C fd E evs m1 = Inr m2 \<and> mouse_undisturbed C fd E evs m1 \<and>
      state m2 = INTERPRETER_RUNNING"
    then have r0: "state m0 = INTERPRETER_RUNNING" and p: "mousePressed E x y b m0 = Inr m1"
      and run: "steps C fd E evs m1 = Inr m2" and und: "mouse_undisturbed C fd E evs m1"
      and r2: "state m2 = INTERPRETER_RUNNING"
      by simp_all
    note press = mousePressed_running [OF r0 p]
    note held = steps_mouse_held [OF run und press(1)]
    have "trace (draw_switch E m2) =
           trace (draw_posthooks_done E m2) @
           [ProcCall (procs (script (draw_posthooks_done E m2)) mouse_pressed_proc)
              [Fixnum x, Fixnum y, lastMouseButton m1]]"
      and "script (draw_switch E m2) =
           snd (proc_call E (procs (script (draw_posthooks_done E m2)) mouse_pressed_proc)
                  [Fixnum x, Fixnum y, lastMouseButton m1] (script (draw_posthooks_done E m2)))"
      and "ruby_error (draw_switch E m2) =
           fst (proc_call E (procs (script (draw_posthooks_done E m2)) mouse_pressed_proc)
                  [Fixnum x, Fixnum y, lastMouseButton m1] (script (draw_posthooks_done E m2)))"
      using held press
      by (simp_all add: draw_switch_running [OF r2] pointer_draw_posthooks_done trace_flag_error
          zj_safe_proc_call_eq flag_error_def)
    with press held show "mouseIsPressed m1 \<and> mouseIsPressed m2 \<and>
      (\<exists>button. zj_button_to_symbol b = Inr button \<and>
         trace (draw_switch E m2) =
           trace (draw_posthooks_done E m2) @
           [ProcCall (procs (script (draw_posthooks_done E m2)) mouse_pressed_proc)
              [Fixnum x, Fixnum y, button]] \<and>
         script (draw_switch E m2) =
           snd (proc_call E (procs (script (draw_posthooks_done E m2)) mouse_pressed_proc)
                  [Fixnum x, Fixnum y, button] (script (draw_posthooks_done E m2))) \<and>
         ruby_error (draw_switch E m2) =
           fst (proc_call E (procs (script (draw_posthooks_done E m2)) mouse_pressed_proc)
                  [Fixnum x, Fixnum y, button] (script (draw_posthooks_done E m2))))"
      by blast
  qed
next
  show "state k0 = INTERPRETER_RUNNING \<and> keyPressed E k k0 = Inr k1 \<and>
    steps C fd E kevs k1 = Inr k2 \<and> key_undisturbed C fd E kevs k1 \<longrightarrow>
      keyIsPressed k1 \<and> keyIsPressed k2"
  proof
    assume a: "state k0 = INTERPRETER_RUNNING \<and> keyPressed E k k0 = Inr k1 \<and>
      steps C fd E kevs k1 = Inr k2 \<and> key_undisturbed C fd E kevs k1"
    then have "keyIsPressed k1"
      using keyPressed_fields(6) [of E k k0 k1] by simp
    with a steps_key_held [of C fd E kevs k1 k2] show "keyIsPressed k1 \<and> keyIsPressed k2"
      by simp
  qed
qed

theorem pressed_flags_survive_error_period_witness:
  "(case mousePressed sample_engine 3 4 0
           (sample_machine INTERPRETER_RUNNING (sample_procs(mouse_down_proc := Proc 8))
              sample_hooks) of
      Inl e \<Rightarrow> None
    | Inr m1 \<Rightarrow>
        (case steps sample_config False sample_engine
                [Update, MouseReleased 3 4 0, Draw sample_os, KeyReleased 65,
                 Reload False None sample_os] m1 of
           Inl e \<Rightarrow> None
         | Inr m2 \<Rightarrow>
             Some (state m1, mouseIsPressed m1,
                   state (update sample_engine m1), state m2, mouseIsPressed m2,
                   last (trace (draw_switch sample_engine m2))))) =
     Some (INTERPRETER_RUNNING, True, INTERPRETER_ERROR, INTERPRETER_RUNNING, True,
           ProcCall (Proc 6) [Fixnum 3, Fixnum 4, Sym ''left'']) \<and>
   (case keyPressed sample_engine 65
           (sample_machine INTERPRETER_RUNNING sample_procs sample_hooks) of
      Inl e \<Rightarrow> None
    | Inr k1 \<Rightarrow>
        (case steps sample_config False sample_engine
                [Update, KeyReleased 65, Reload False None sample_os] k1 of
           Inl e \<Rightarrow> None
         | Inr k2 \<Rightarrow> Some (keyIsPressed k1, state (update sample_engine k1), state k2,
                            keyIsPressed k2))) =
     Some (True, INTERPRETER_ERROR, INTERPRETER_RUNNING, True)"
proof -
  let ?m0 = "sample_machine INTERPRETER_RUNNING (sample_procs(mouse_down_proc := Proc 8))
               sample_hooks"
  let ?k0 = "sample_machine INTERPRETER_RUNNING sample_procs sample_hooks"
  let ?evs = "[Update, MouseReleased 3 4 0, Draw sample_os, KeyReleased 65,
               Reload False None sample_os]"
  let ?kevs = "[Update, KeyReleased 65, Reload False None sample_os]"
  have running: "state ?m0 = INTERPRETER_RUNNING" "state ?k0 = INTERPRETER_RUNNING"
    by (simp_all add: sample_defs)
  have "\<exists>m1 m2. mousePressed sample_engine 3 4 0 ?m0 = Inr m1 \<and>
          state m1 = INTERPRETER_RUNNING \<and>
          state (update sample_engine m1) = INTERPRETER_ERROR \<and>
          steps sample_config False sample_engine ?evs m1 = Inr m2 \<and>
          mouse_undisturbed sample_config False sample_engine ?evs m1 \<and>
          state m2 = INTERPRETER_RUNNING \<and>
          procs (script (draw_posthooks_done sample_engine m2)) mouse_pressed_proc = Proc 6"
    by (simp add: step_defs handler_defs poll_defs reload_defs sample_defs phase_defs)
  then obtain m1 m2 where
    press: "mousePressed sample_engine 3 4 0 ?m0 = Inr m1"
    and still: "state m1 = INTERPRETER_RUNNING"
    and fails: "state (update sample_engine m1) = INTERPRETER_ERROR"
    and run: "steps sample_config False sample_engine ?evs m1 = Inr m2"
    and quiet: "mouse_undisturbed sample_config False sample_engine ?evs m1"
    and recovered: "state m2 = INTERPRETER_RUNNING"
    and handler: "procs (script (draw_posthooks_done sample_engine m2)) mouse_pressed_proc = Proc 6"
    by blast
  have "\<exists>k1 k2. keyPressed sample_engine 65 ?k0 = Inr k1 \<and>
          state (update sample_engine k1) = INTERPRETER_ERROR \<and>
          steps sample_config False sample_engine ?kevs k1 = Inr k2 \<and>
          key_undisturbed sample_config False sample_engine ?kevs k1 \<and>
          state k2 = INTERPRETER_RUNNING"
    by (simp add: step_defs handler_defs poll_defs reload_defs sample_defs phase_defs)
  then obtain k1 k2 where
    kpress: "keyPressed sample_engine 65 ?k0 = Inr k1"
    and kfails: "state (update sample_engine k1) = INTERPRETER_ERROR"
    and krun: "steps sample_config False sample_engine ?kevs k1 = Inr k2"
    and kquiet: "key_undisturbed sample_config False sample_engine ?kevs k1"
    and krecovered: "state k2 = INTERPRETER_RUNNING"
    by blast
  note claim = pressed_flags_survive_error_period
    [where C = sample_config and fd = False and E = sample_engine
       and x = 3 and y = 4 and b = 0 and ?m0.0 = ?m0 and ?m1.0 = m1 and evs = ?evs
       and ?m2.0 = m2 and k = 65 and ?k0.0 = ?k0 and ?k1.0 = k1 and kevs = ?kevs
       and ?k2.0 = k2]
  from claim running press run quiet recovered obtain button where
    held: "mouseIsPressed m1" "mouseIsPressed m2"
    and button: "zj_button_to_symbol 0 = Inr button"
    and tr: "trace (draw_switch sample_engine m2) =
           trace (draw_posthooks_done sample_engine m2) @
           [ProcCall (procs (script (draw_posthooks_done sample_engine m2)) mouse_pressed_proc)
              [Fixnum 3, Fixnum 4, button]]"
    by blast
  from button have "button = Sym ''left''"
    by (simp add: zj_button_to_symbol_def)
  then have last: "last (trace (draw_switch sample_engine m2)) =
          ProcCall (Proc 6) [Fixnum 3, Fixnum 4, Sym ''left'']"
    by (simp add: tr handler)
  from claim running kpress krun kquiet have kheld: "keyIsPressed k1" "keyIsPressed k2"
    by blast+
  show ?thesis
    unfolding press kpress sum.case run krun
    by (simp add: still held fails recovered last kheld kfails krecovered)
qed

subsection \<open>Pointer buttons\<close>

text \<open>
  C6. The button mapping returns the symbols left, middle and right for the inputs 0, 1
  and 2; for every other integer it returns no value: the process is aborted by
  \<^verbatim>\<open>rb_bug\<close>, whose diagnostic carries the button.
\<close>

theorem zj_button_to_symbol_closed_enumeration:
  "zj_button_to_symbol 0 = Inr (Sym ''left'') \<and>
   zj_button_to_symbol 1 = Inr (Sym ''middle'') \<and>
   zj_button_to_symbol 2 = Inr (Sym ''right'') \<and>
   (\<forall>b. b \<noteq> 0 \<and> b \<noteq> 1 \<and> b \<noteq> 2 \<longrightarrow> zj_button_to_symbol b = Inl (RbBug b))"
  by (simp add: zj_button_to_symbol_def)

theorem zj_button_to_symbol_closed_enumeration_witness:
  "zj_button_to_symbol 3 = Inl (RbBug 3) \<and> zj_button_to_symbol (- 1) = Inl (RbBug (- 1))"
  using zj_button_to_symbol_closed_enumeration by simp

end
